theory Spec2Isabelle
  imports Main "HOL-Library.Char_ord" "HOL-Library.List_Lexorder" "HOL-Library.Word"
begin

section \<open>Errors and stored values\<close>

text \<open>
  The contracts report failures as Go \<^verbatim>\<open>error\<close> values built with \<^verbatim>\<open>fmt.Errorf\<close>.
  One constructor stands for each kind of error site of the source:
  \<^item> \<open>StoreUnavailable\<close>: an error returned by a ledger call (\<^verbatim>\<open>GetState\<close>, \<^verbatim>\<open>PutState\<close>,
    \<^verbatim>\<open>DelState\<close>, a range scan, a query, an iterator's \<^verbatim>\<open>Next\<close>), returned as it is or wrapped
    in a message;
  \<^item> \<open>AlreadyExists x\<close>: "... already exists: x";
  \<^item> \<open>NotFound x\<close>: "... x does not exist";
  \<^item> \<open>Unauthorized\<close>: "submitting client not authorized to ..., does not own ...";
  \<^item> \<open>NotCreator\<close>: "... does not have class.creator role";
  \<^item> \<open>EncodingError\<close>: the error of \<^verbatim>\<open>CreateCompositeKey\<close>;
  \<^item> \<open>UnmarshalError\<close>: the error of \<^verbatim>\<open>json.Unmarshal\<close>;
  \<^item> \<open>IdentityError\<close>: "Failed to read clientID" and "failed to base64 decode clientID".
\<close>

datatype error =
    StoreUnavailable
  | AlreadyExists string
  | NotFound string
  | Unauthorized
  | NotCreator
  | EncodingError
  | UnmarshalError
  | IdentityError

text \<open>
  A stored value is a byte string. The contracts write two sorts of values: the
  \<^verbatim>\<open>json.Marshal\<close> text of a record, and the one-byte marker \<^verbatim>\<open>[]byte{0x00}\<close> of an index
  entry. A byte string that is the text of a JSON document is represented by that document
  (\<open>JSON\<close>); any other byte string is kept as it is (\<open>Bytes\<close>), and \<^verbatim>\<open>json.Unmarshal\<close>
  fails on it. Numbers are integers: the only number the contracts write is the
  \<^verbatim>\<open>uint32\<close> score of a submission. \<^verbatim>\<open>json.Marshal\<close> of a struct of strings and
  unsigned integers has no error, so the \<^verbatim>\<open>if err != nil\<close> that follows each call of it
  in the source is never taken and has no branch in the model.
\<close>

datatype json =
    JNull
  | JBool bool
  | JNumber int
  | JString string
  | JArray "json list"
  | JObject "(string \<times> json) list"

datatype bytes = JSON json | Bytes string

definition marker :: bytes where
  "marker = Bytes [CHR 0x00]"

text \<open>
  \<^verbatim>\<open>json.Unmarshal\<close> into a struct walks the members of the object in order. A member
  whose name is the tag of a string field sets the field when its value is a string, leaves
  it alone when the value is \<^verbatim>\<open>null\<close>, and is an error otherwise; other members are
  ignored; a field that no member names keeps its zero value. Member names are compared
  exactly (Go also accepts a name that differs in letter case; no document written by
  these contracts has one).
\<close>

fun decodeString :: "string \<Rightarrow> (string \<times> json) list \<Rightarrow> string \<Rightarrow> string option" where
  "decodeString tag [] cur = Some cur"
| "decodeString tag ((k, v) # kvs) cur =
     (if k = tag then
        (case v of
           JNull \<Rightarrow> decodeString tag kvs cur
         | JString x \<Rightarrow> decodeString tag kvs x
         | _ \<Rightarrow> None)
      else decodeString tag kvs cur)"

fun decodeUint32 :: "string \<Rightarrow> (string \<times> json) list \<Rightarrow> 32 word \<Rightarrow> 32 word option" where
  "decodeUint32 tag [] cur = Some cur"
| "decodeUint32 tag ((k, v) # kvs) cur =
     (if k = tag then
        (case v of
           JNull \<Rightarrow> decodeUint32 tag kvs cur
         | JNumber n \<Rightarrow>
             (if 0 \<le> n \<and> n < 2 ^ 32 then decodeUint32 tag kvs (word_of_int n) else None)
         | _ \<Rightarrow> None)
      else decodeUint32 tag kvs cur)"

section \<open>The ledger and the transaction context\<close>

text \<open>
  Modelled from the spec: section 6, the ordered key-value store and the identity
  provider. They are the Fabric shim and client identity library, which are not part of
  the repository. The world state is a list of entries in ascending key order, one per
  key. Whether a ledger call fails is not decided by the contract: the transaction
  context carries, for each call, the keys on which it fails. Rich queries and paginated
  calls are answered by the state database; the context carries their answers as
  functions of the world state.
\<close>

type_synonym key = string

type_synonym ledger = "(key \<times> bytes) list"

text \<open>An iterator is the sequence of results of its \<^verbatim>\<open>Next\<close> calls.\<close>

type_synonym iterator = "(error + key \<times> bytes) list"

record QueryResponseMetadata =
  FetchedRecordsCount :: "32 word"
  Bookmark :: string

text \<open>
  The identity string of \<^verbatim>\<open>GetID\<close> is base64 text; it is represented by the bytes it
  encodes (\<open>Base64\<close>), or kept as it is when it is not base64 text (\<open>NotBase64\<close>).
\<close>

datatype b64 = Base64 string | NotBase64 string

record ctx =
  getFails :: "key \<Rightarrow> bool"
  putFails :: "key \<Rightarrow> bool"
  delFails :: "key \<Rightarrow> bool"
  rangeFails :: "key \<Rightarrow> key \<Rightarrow> bool"
  queryResult :: "ledger \<Rightarrow> string \<Rightarrow> error + iterator"
  rangePage :: "ledger \<Rightarrow> key \<Rightarrow> key \<Rightarrow> 32 word \<Rightarrow> string
                  \<Rightarrow> error + iterator \<times> QueryResponseMetadata"
  queryPage :: "ledger \<Rightarrow> string \<Rightarrow> 32 word \<Rightarrow> string
                  \<Rightarrow> error + iterator \<times> QueryResponseMetadata"
  GetID :: "error + b64"
  attributes :: "string \<Rightarrow> string option"

fun put :: "key \<Rightarrow> bytes \<Rightarrow> ledger \<Rightarrow> ledger" where
  "put k v [] = [(k, v)]"
| "put k v ((k', v') # s) =
     (if k < k' then (k, v) # (k', v') # s
      else if k = k' then (k, v) # s
      else (k', v') # put k v s)"

definition del :: "key \<Rightarrow> ledger \<Rightarrow> ledger" where
  "del k s = filter (\<lambda>e. fst e \<noteq> k) s"

definition GetState :: "ctx \<Rightarrow> ledger \<Rightarrow> key \<Rightarrow> error + bytes option" where
  "GetState c s k = (if getFails c k then Inl StoreUnavailable else Inr (map_of s k))"

definition PutState :: "ctx \<Rightarrow> ledger \<Rightarrow> key \<Rightarrow> bytes \<Rightarrow> error + ledger" where
  "PutState c s k v = (if putFails c k then Inl StoreUnavailable else Inr (put k v s))"

definition DelState :: "ctx \<Rightarrow> ledger \<Rightarrow> key \<Rightarrow> error + ledger" where
  "DelState c s k = (if delFails c k then Inl StoreUnavailable else Inr (del k s))"

text \<open>
  A range scan yields the entries with \<open>startKey \<le> key < endKey\<close> in key order; an empty
  \<open>endKey\<close> is unbounded. Keys that start with the null byte are the namespace of
  composite keys: an empty \<open>startKey\<close> stands for \<^verbatim>\<open>"\x01"\<close>, and a scan whose bound
  starts with the null byte is refused.
\<close>

definition validateSimpleKeys :: "key list \<Rightarrow> bool" where
  "validateSimpleKeys ks = list_all (\<lambda>k. case k of [] \<Rightarrow> True | c # _ \<Rightarrow> c \<noteq> CHR 0x00) ks"

definition GetStateByRange :: "ctx \<Rightarrow> ledger \<Rightarrow> key \<Rightarrow> key \<Rightarrow> error + iterator" where
  "GetStateByRange c s startKey endKey =
     (let start = (if startKey = [] then [CHR 0x01] else startKey) in
      if \<not> validateSimpleKeys [start, endKey] then Inl StoreUnavailable
      else if rangeFails c startKey endKey then Inl StoreUnavailable
      else Inr (map Inr (filter (\<lambda>e. start \<le> fst e \<and> (endKey = [] \<or> fst e < endKey)) s)))"

definition GetStateByRangeWithPagination ::
  "ctx \<Rightarrow> ledger \<Rightarrow> key \<Rightarrow> key \<Rightarrow> 32 word \<Rightarrow> string
     \<Rightarrow> error + iterator \<times> QueryResponseMetadata" where
  "GetStateByRangeWithPagination c s startKey endKey pageSize bookmark =
     rangePage c s startKey endKey pageSize bookmark"

definition GetQueryResult :: "ctx \<Rightarrow> ledger \<Rightarrow> string \<Rightarrow> error + iterator" where
  "GetQueryResult c s queryString = queryResult c s queryString"

definition GetQueryResultWithPagination ::
  "ctx \<Rightarrow> ledger \<Rightarrow> string \<Rightarrow> 32 word \<Rightarrow> string
     \<Rightarrow> error + iterator \<times> QueryResponseMetadata" where
  "GetQueryResultWithPagination c s queryString pageSize bookmark =
     queryPage c s queryString pageSize bookmark"


definition DecodeString :: "b64 \<Rightarrow> error + string" where
  "DecodeString t = (case t of Base64 bs \<Rightarrow> Inr bs | NotBase64 _ \<Rightarrow> Inl IdentityError)"

subsection \<open>Composite keys\<close>

text \<open>
  Modelled from the spec: section 4.1, \<open>BuildKey\<close>. The key is the namespace byte
  \<^verbatim>\<open>0x00\<close>, the index name, and each segment, every one of them closed by the
  terminator \<^verbatim>\<open>U+0000\<close>. The index name and the segments must be valid UTF-8 without the
  reserved runes \<^verbatim>\<open>U+0000\<close> and \<^verbatim>\<open>U+10FFFF\<close> (in UTF-8 the bytes \<^verbatim>\<open>F4 8F BF BF\<close>),
  as in the Fabric shim that the contracts call.
\<close>

definition inRange :: "nat \<Rightarrow> nat \<Rightarrow> char \<Rightarrow> bool" where
  "inRange lo hi c = (lo \<le> of_char c \<and> (of_char c :: nat) \<le> hi)"

fun ValidString :: "string \<Rightarrow> bool" where
  "ValidString [] = True"
| "ValidString (c # cs) =
     (if inRange 0x00 0x7F c then ValidString cs
      else if inRange 0xC2 0xDF c then
        (case cs of
           c1 # r \<Rightarrow> inRange 0x80 0xBF c1 \<and> ValidString r
         | _ \<Rightarrow> False)
      else if inRange 0xE0 0xEF c then
        (case cs of
           c1 # c2 # r \<Rightarrow>
             inRange (if c = CHR 0xE0 then 0xA0 else 0x80)
                     (if c = CHR 0xED then 0x9F else 0xBF) c1 \<and>
             inRange 0x80 0xBF c2 \<and> ValidString r
         | _ \<Rightarrow> False)
      else if inRange 0xF0 0xF4 c then
        (case cs of
           c1 # c2 # c3 # r \<Rightarrow>
             inRange (if c = CHR 0xF0 then 0x90 else 0x80)
                     (if c = CHR 0xF4 then 0x8F else 0xBF) c1 \<and>
             inRange 0x80 0xBF c2 \<and> inRange 0x80 0xBF c3 \<and> ValidString r
         | _ \<Rightarrow> False)
      else False)"

fun hasMaxRune :: "string \<Rightarrow> bool" where
  "hasMaxRune (a # b # c # d # r) =
     ((a = CHR 0xF4 \<and> b = CHR 0x8F \<and> c = CHR 0xBF \<and> d = CHR 0xBF) \<or> hasMaxRune (b # c # d # r))"
| "hasMaxRune _ = False"

definition validateCompositeKeyAttribute :: "string \<Rightarrow> bool" where
  "validateCompositeKeyAttribute str =
     (ValidString str \<and> CHR 0x00 \<notin> set str \<and> \<not> hasMaxRune str)"

definition CreateCompositeKey :: "string \<Rightarrow> string list \<Rightarrow> error + key" where
  "CreateCompositeKey objectType atts =
     (if validateCompositeKeyAttribute objectType \<and> list_all validateCompositeKeyAttribute atts
      then Inr (CHR 0x00 # objectType @ [CHR 0x00] @ concat (map (\<lambda>a. a @ [CHR 0x00]) atts))
      else Inl EncodingError)"

section \<open>The Class contract (class.go)\<close>

record Class =
  Class_ID :: string
  Class_Name :: string
  Class_Content :: string
  Class_Owner :: string

definition marshalClass :: "Class \<Rightarrow> bytes" where
  "marshalClass r =
     JSON (JObject [(''ID'', JString (Class_ID r)), (''name'', JString (Class_Name r)),
                    (''content'', JString (Class_Content r)), (''owner'', JString (Class_Owner r))])"

definition unmarshalClass :: "bytes \<Rightarrow> error + Class" where
  "unmarshalClass b =
     (case b of
        Bytes _ \<Rightarrow> Inl UnmarshalError
      | JSON JNull \<Rightarrow> Inr \<lparr>Class_ID = [], Class_Name = [], Class_Content = [], Class_Owner = []\<rparr>
      | JSON (JObject kvs) \<Rightarrow>
          (case (decodeString ''ID'' kvs [], decodeString ''name'' kvs [],
                 decodeString ''content'' kvs [], decodeString ''owner'' kvs []) of
             (Some i, Some n, Some ct, Some ow) \<Rightarrow>
               Inr \<lparr>Class_ID = i, Class_Name = n, Class_Content = ct, Class_Owner = ow\<rparr>
           | _ \<Rightarrow> Inl UnmarshalError)
      | JSON _ \<Rightarrow> Inl UnmarshalError)"

definition ClassExists :: "ctx \<Rightarrow> ledger \<Rightarrow> string \<Rightarrow> error + bool" where
  "ClassExists c s ident =
     (case GetState c s ident of
        Inl e \<Rightarrow> Inl StoreUnavailable
      | Inr classJSON \<Rightarrow> Inr (classJSON \<noteq> None))"

definition GetSubmittingClientIdentity :: "ctx \<Rightarrow> error + string" where
  "GetSubmittingClientIdentity c =
     (case GetID c of
        Inl e \<Rightarrow> Inl IdentityError
      | Inr b64ID \<Rightarrow>
          (case DecodeString b64ID of
             Inl e \<Rightarrow> Inl IdentityError
           | Inr decodeID \<Rightarrow> Inr decodeID))"

definition ReadClass :: "ctx \<Rightarrow> ledger \<Rightarrow> string \<Rightarrow> error + Class" where
  "ReadClass c s ident =
     (case GetState c s ident of
        Inl e \<Rightarrow> Inl StoreUnavailable
      | Inr None \<Rightarrow> Inl (NotFound ident)
      | Inr (Some classJSON) \<Rightarrow> unmarshalClass classJSON)"


definition UpdateClass ::
  "ctx \<Rightarrow> ledger \<Rightarrow> string \<Rightarrow> string \<Rightarrow> string \<Rightarrow> error option \<times> ledger" where
  "UpdateClass c s ident newName newContent =
     (case ReadClass c s ident of
        Inl e \<Rightarrow> (Some e, s)
      | Inr cls \<Rightarrow>
          (case GetSubmittingClientIdentity c of
             Inl e \<Rightarrow> (Some e, s)
           | Inr clientID \<Rightarrow>
               (if clientID \<noteq> Class_Owner cls then (Some Unauthorized, s)
                else
                  (case PutState c s ident
                          (marshalClass (cls\<lparr>Class_Name := newName, Class_Content := newContent\<rparr>)) of
                     Inl e \<Rightarrow> (Some e, s)
                   | Inr s' \<Rightarrow> (None, s')))))"

definition DeleteClass :: "ctx \<Rightarrow> ledger \<Rightarrow> string \<Rightarrow> error option \<times> ledger" where
  "DeleteClass c s ident =
     (case ReadClass c s ident of
        Inl e \<Rightarrow> (Some e, s)
      | Inr asset \<Rightarrow>
          (case GetSubmittingClientIdentity c of
             Inl e \<Rightarrow> (Some e, s)
           | Inr clientID \<Rightarrow>
               (if clientID \<noteq> Class_Owner asset then (Some Unauthorized, s)
                else
                  (case DelState c s ident of
                     Inl e \<Rightarrow> (Some e, s)
                   | Inr s' \<Rightarrow> (None, s')))))"

definition TransferClass :: "ctx \<Rightarrow> ledger \<Rightarrow> string \<Rightarrow> string \<Rightarrow> error option \<times> ledger" where
  "TransferClass c s ident newOwner =
     (case ReadClass c s ident of
        Inl e \<Rightarrow> (Some e, s)
      | Inr cls \<Rightarrow>
          (case GetSubmittingClientIdentity c of
             Inl e \<Rightarrow> (Some e, s)
           | Inr clientID \<Rightarrow>
               (if clientID \<noteq> Class_Owner cls then (Some Unauthorized, s)
                else
                  (case PutState c s ident (marshalClass (cls\<lparr>Class_Owner := newOwner\<rparr>)) of
                     Inl e \<Rightarrow> (Some e, s)
                   | Inr s' \<Rightarrow> (None, s')))))"

fun GetAllClassses_loop :: "iterator \<Rightarrow> Class list \<Rightarrow> error + Class list" where
  "GetAllClassses_loop [] classes = Inr classes"
| "GetAllClassses_loop (Inl e # it) classes = Inl e"
| "GetAllClassses_loop (Inr (k, v) # it) classes =
     (case unmarshalClass v of
        Inl e \<Rightarrow> Inl e
      | Inr cls \<Rightarrow> GetAllClassses_loop it (classes @ [cls]))"

definition GetAllClassses :: "ctx \<Rightarrow> ledger \<Rightarrow> error + Class list" where
  "GetAllClassses c s =
     (case GetStateByRange c s [] [] of
        Inl e \<Rightarrow> Inl e
      | Inr resultsIterator \<Rightarrow> GetAllClassses_loop resultsIterator [])"




section \<open>The Lab contract (lab.go, first part)\<close>

record Lab =
  Lab_DocType :: string
  Lab_ID :: string
  Lab_ClassID :: string
  Lab_Name :: string
  Lab_Content :: string
  Lab_Image :: string
  Lab_StartTime :: string
  Lab_EndTime :: string
  Lab_Owner :: string

definition index :: string where
  "index = ''classID~name''"

record PaginatedQueryResult =
  PQR_Labs :: "Lab list"
  PQR_FetchedRecordsCount :: "32 word"
  PQR_Bookmark :: string

definition marshalLab :: "Lab \<Rightarrow> bytes" where
  "marshalLab r =
     JSON (JObject [(''docType'', JString (Lab_DocType r)), (''ID'', JString (Lab_ID r)),
                    (''classID'', JString (Lab_ClassID r)), (''name'', JString (Lab_Name r)),
                    (''content'', JString (Lab_Content r)), (''image'', JString (Lab_Image r)),
                    (''startTime'', JString (Lab_StartTime r)),
                    (''endTime'', JString (Lab_EndTime r)), (''owner'', JString (Lab_Owner r))])"

definition unmarshalLab :: "bytes \<Rightarrow> error + Lab" where
  "unmarshalLab b =
     (case b of
        Bytes _ \<Rightarrow> Inl UnmarshalError
      | JSON JNull \<Rightarrow>
          Inr \<lparr>Lab_DocType = [], Lab_ID = [], Lab_ClassID = [], Lab_Name = [], Lab_Content = [],
               Lab_Image = [], Lab_StartTime = [], Lab_EndTime = [], Lab_Owner = []\<rparr>
      | JSON (JObject kvs) \<Rightarrow>
          (case those [decodeString ''docType'' kvs [], decodeString ''ID'' kvs [],
                       decodeString ''classID'' kvs [], decodeString ''name'' kvs [],
                       decodeString ''content'' kvs [], decodeString ''image'' kvs [],
                       decodeString ''startTime'' kvs [], decodeString ''endTime'' kvs [],
                       decodeString ''owner'' kvs []] of
             Some [d, i, cl, n, ct, im, st, en, ow] \<Rightarrow>
               Inr \<lparr>Lab_DocType = d, Lab_ID = i, Lab_ClassID = cl, Lab_Name = n, Lab_Content = ct,
                    Lab_Image = im, Lab_StartTime = st, Lab_EndTime = en, Lab_Owner = ow\<rparr>
           | _ \<Rightarrow> Inl UnmarshalError)
      | JSON _ \<Rightarrow> Inl UnmarshalError)"

definition LabExists :: "ctx \<Rightarrow> ledger \<Rightarrow> string \<Rightarrow> error + bool" where
  "LabExists c s labID =
     (case GetState c s labID of
        Inl e \<Rightarrow> Inl StoreUnavailable
      | Inr labBytes \<Rightarrow> Inr (labBytes \<noteq> None))"

definition CreateLab ::
  "ctx \<Rightarrow> ledger \<Rightarrow> string \<Rightarrow> string \<Rightarrow> string \<Rightarrow> string \<Rightarrow> string \<Rightarrow> string \<Rightarrow> string \<Rightarrow> string
     \<Rightarrow> error option \<times> ledger" where
  "CreateLab c s labID classID name content img startTime endTime owner =
     (case LabExists c s labID of
        Inl e \<Rightarrow> (Some e, s)
      | Inr exists \<Rightarrow>
          (if exists then (Some (AlreadyExists labID), s)
           else
            (let lab = \<lparr>Lab_DocType = ''lab'', Lab_ID = labID, Lab_ClassID = classID,
                        Lab_Name = name, Lab_Content = content, Lab_Image = img,
                        Lab_StartTime = startTime, Lab_EndTime = endTime, Lab_Owner = owner\<rparr>
             in (case PutState c s labID (marshalLab lab) of
                   Inl e \<Rightarrow> (Some e, s)
                 | Inr s1 \<Rightarrow>
                     (case CreateCompositeKey index [Lab_ClassID lab, Lab_ID lab] of
                        Inl e \<Rightarrow> (Some e, s1)
                      | Inr labNameIndexKey \<Rightarrow>
                          (case PutState c s1 labNameIndexKey marker of
                             Inl e \<Rightarrow> (Some e, s1)
                           | Inr s2 \<Rightarrow> (None, s2)))))))"

definition ReadLab :: "ctx \<Rightarrow> ledger \<Rightarrow> string \<Rightarrow> error + Lab" where
  "ReadLab c s labID =
     (case GetState c s labID of
        Inl e \<Rightarrow> Inl StoreUnavailable
      | Inr None \<Rightarrow> Inl (NotFound labID)
      | Inr (Some labBytes) \<Rightarrow> unmarshalLab labBytes)"

fun constructQueryResponseFromIterator_loop :: "iterator \<Rightarrow> Lab list \<Rightarrow> error + Lab list" where
  "constructQueryResponseFromIterator_loop [] labs = Inr labs"
| "constructQueryResponseFromIterator_loop (Inl e # it) labs = Inl e"
| "constructQueryResponseFromIterator_loop (Inr (k, v) # it) labs =
     (case unmarshalLab v of
        Inl e \<Rightarrow> Inl e
      | Inr lab \<Rightarrow> constructQueryResponseFromIterator_loop it (labs @ [lab]))"

definition constructQueryResponseFromIterator :: "iterator \<Rightarrow> error + Lab list" where
  "constructQueryResponseFromIterator resultsIterator =
     constructQueryResponseFromIterator_loop resultsIterator []"

text \<open>\<open>ReadLabs\<close> has the loop of \<open>constructQueryResponseFromIterator\<close> written out in its body.\<close>

definition ReadLabs :: "ctx \<Rightarrow> ledger \<Rightarrow> error + Lab list" where
  "ReadLabs c s =
     (case GetStateByRange c s [] [] of
        Inl e \<Rightarrow> Inl e
      | Inr resultsIterator \<Rightarrow> constructQueryResponseFromIterator_loop resultsIterator [])"

definition DeleteLab :: "ctx \<Rightarrow> ledger \<Rightarrow> string \<Rightarrow> string \<Rightarrow> error option \<times> ledger" where
  "DeleteLab c s labID clientID =
     (case ReadLab c s labID of
        Inl e \<Rightarrow> (Some e, s)
      | Inr lab \<Rightarrow>
          (if clientID \<noteq> Lab_Owner lab then (Some Unauthorized, s)
           else
             (case DelState c s labID of
                Inl e \<Rightarrow> (Some e, s)
              | Inr s1 \<Rightarrow>
                  (case CreateCompositeKey index [Lab_ClassID lab, Lab_ID lab] of
                     Inl e \<Rightarrow> (Some e, s1)
                   | Inr labNameIndexKey \<Rightarrow>
                       (case DelState c s1 labNameIndexKey of
                          Inl e \<Rightarrow> (Some e, s1)
                        | Inr s2 \<Rightarrow> (None, s2))))))"

text \<open>
  The four update operations differ only in the fields they assign; \<open>updateLabWith\<close> is
  their common body, with the assignment as an argument.
\<close>

definition updateLabWith ::
  "(Lab \<Rightarrow> Lab) \<Rightarrow> ctx \<Rightarrow> ledger \<Rightarrow> string \<Rightarrow> string \<Rightarrow> error option \<times> ledger" where
  "updateLabWith assign c s labID clientID =
     (case ReadLab c s labID of
        Inl e \<Rightarrow> (Some e, s)
      | Inr lab \<Rightarrow>
          (if clientID \<noteq> Lab_Owner lab then (Some Unauthorized, s)
           else
             (case PutState c s labID (marshalLab (assign lab)) of
                Inl e \<Rightarrow> (Some e, s)
              | Inr s' \<Rightarrow> (None, s'))))"

definition UpdateLabContent ::
  "ctx \<Rightarrow> ledger \<Rightarrow> string \<Rightarrow> string \<Rightarrow> string \<Rightarrow> error option \<times> ledger" where
  "UpdateLabContent c s labID newContent clientID =
     updateLabWith (\<lambda>lab. lab\<lparr>Lab_Content := newContent\<rparr>) c s labID clientID"

definition UpdateLabImage ::
  "ctx \<Rightarrow> ledger \<Rightarrow> string \<Rightarrow> string \<Rightarrow> string \<Rightarrow> error option \<times> ledger" where
  "UpdateLabImage c s labID newImage clientID =
     updateLabWith (\<lambda>lab. lab\<lparr>Lab_Image := newImage\<rparr>) c s labID clientID"

definition UpdateLabEndtime ::
  "ctx \<Rightarrow> ledger \<Rightarrow> string \<Rightarrow> string \<Rightarrow> string \<Rightarrow> error option \<times> ledger" where
  "UpdateLabEndtime c s labID newTime clientID =
     updateLabWith (\<lambda>lab. lab\<lparr>Lab_EndTime := newTime\<rparr>) c s labID clientID"

definition UpdateLab ::
  "ctx \<Rightarrow> ledger \<Rightarrow> string \<Rightarrow> string \<Rightarrow> string \<Rightarrow> string \<Rightarrow> string \<Rightarrow> string \<Rightarrow> string
     \<Rightarrow> error option \<times> ledger" where
  "UpdateLab c s labID newImage newName newContent newStartTime newEndTime clientID =
     updateLabWith
       (\<lambda>lab. lab\<lparr>Lab_Image := newImage, Lab_Name := newName, Lab_Content := newContent,
                  Lab_StartTime := newStartTime, Lab_EndTime := newEndTime\<rparr>)
       c s labID clientID"

definition GetLabsByRange :: "ctx \<Rightarrow> ledger \<Rightarrow> string \<Rightarrow> string \<Rightarrow> error + Lab list" where
  "GetLabsByRange c s startKey endKey =
     (case GetStateByRange c s startKey endKey of
        Inl e \<Rightarrow> Inl e
      | Inr resultsIterator \<Rightarrow> constructQueryResponseFromIterator resultsIterator)"

definition getQueryResultForQueryString :: "ctx \<Rightarrow> ledger \<Rightarrow> string \<Rightarrow> error + Lab list" where
  "getQueryResultForQueryString c s queryString =
     (case GetQueryResult c s queryString of
        Inl e \<Rightarrow> Inl e
      | Inr resultsIterator \<Rightarrow> constructQueryResponseFromIterator resultsIterator)"

definition QueryLabs :: "ctx \<Rightarrow> ledger \<Rightarrow> string \<Rightarrow> error + Lab list" where
  "QueryLabs c s queryString = getQueryResultForQueryString c s queryString"

text \<open>
  The page size is a Go \<^verbatim>\<open>int\<close> (64 bits); \<^verbatim>\<open>int32(pageSize)\<close> keeps its low 32 bits.
  The metadata of the paginated range scan is discarded by the source (\<^verbatim>\<open>_\<close>).
\<close>

definition GetAssetsByRangeWithPagination ::
  "ctx \<Rightarrow> ledger \<Rightarrow> string \<Rightarrow> string \<Rightarrow> 64 word \<Rightarrow> string \<Rightarrow> error + Lab list" where
  "GetAssetsByRangeWithPagination c s startKey endKey pageSize bookmark =
     (case GetStateByRangeWithPagination c s startKey endKey (ucast pageSize) bookmark of
        Inl e \<Rightarrow> Inl e
      | Inr (resultsIterator, _) \<Rightarrow> constructQueryResponseFromIterator resultsIterator)"

definition getQueryResultForQueryStringWithPagination ::
  "ctx \<Rightarrow> ledger \<Rightarrow> string \<Rightarrow> 32 word \<Rightarrow> string \<Rightarrow> error + PaginatedQueryResult" where
  "getQueryResultForQueryStringWithPagination c s queryString pageSize bookmark =
     (case GetQueryResultWithPagination c s queryString pageSize bookmark of
        Inl e \<Rightarrow> Inl e
      | Inr (resultsIterator, responseMetadata) \<Rightarrow>
          (case constructQueryResponseFromIterator resultsIterator of
             Inl e \<Rightarrow> Inl e
           | Inr labs \<Rightarrow>
               Inr \<lparr>PQR_Labs = labs,
                    PQR_FetchedRecordsCount = FetchedRecordsCount responseMetadata,
                    PQR_Bookmark = Bookmark responseMetadata\<rparr>))"

definition QueryAssetsWithPagination ::
  "ctx \<Rightarrow> ledger \<Rightarrow> string \<Rightarrow> 64 word \<Rightarrow> string \<Rightarrow> error + PaginatedQueryResult" where
  "QueryAssetsWithPagination c s queryString pageSize bookmark =
     getQueryResultForQueryStringWithPagination c s queryString (ucast pageSize) bookmark"

section \<open>The Instance contract (lab.go, second part)\<close>

record Instance =
  Instance_DocType :: string
  Instance_ID :: string
  Instance_ClassID :: string
  Instance_LabID :: string
  Instance_Config :: string
  Instance_Owner :: string

text \<open>The Instance and the Submission contract declare the same three index names.\<close>

definition index1 :: string where
  "index1 = ''labID~name''"

definition index2 :: string where
  "index2 = ''classID~name''"

definition index3 :: string where
  "index3 = ''owner~name''"

definition marshalInstance :: "Instance \<Rightarrow> bytes" where
  "marshalInstance r =
     JSON (JObject [(''docType'', JString (Instance_DocType r)), (''ID'', JString (Instance_ID r)),
                    (''classID'', JString (Instance_ClassID r)),
                    (''labID'', JString (Instance_LabID r)),
                    (''config'', JString (Instance_Config r)),
                    (''owner'', JString (Instance_Owner r))])"

definition unmarshalInstance :: "bytes \<Rightarrow> error + Instance" where
  "unmarshalInstance b =
     (case b of
        Bytes _ \<Rightarrow> Inl UnmarshalError
      | JSON JNull \<Rightarrow>
          Inr \<lparr>Instance_DocType = [], Instance_ID = [], Instance_ClassID = [],
               Instance_LabID = [], Instance_Config = [], Instance_Owner = []\<rparr>
      | JSON (JObject kvs) \<Rightarrow>
          (case those [decodeString ''docType'' kvs [], decodeString ''ID'' kvs [],
                       decodeString ''classID'' kvs [], decodeString ''labID'' kvs [],
                       decodeString ''config'' kvs [], decodeString ''owner'' kvs []] of
             Some [d, i, cl, la, cf, ow] \<Rightarrow>
               Inr \<lparr>Instance_DocType = d, Instance_ID = i, Instance_ClassID = cl,
                    Instance_LabID = la, Instance_Config = cf, Instance_Owner = ow\<rparr>
           | _ \<Rightarrow> Inl UnmarshalError)
      | JSON _ \<Rightarrow> Inl UnmarshalError)"

definition InstanceExists :: "ctx \<Rightarrow> ledger \<Rightarrow> string \<Rightarrow> error + bool" where
  "InstanceExists c s instanceID =
     (case GetState c s instanceID of
        Inl e \<Rightarrow> Inl StoreUnavailable
      | Inr instanceBytes \<Rightarrow> Inr (instanceBytes \<noteq> None))"

definition ReadInstance :: "ctx \<Rightarrow> ledger \<Rightarrow> string \<Rightarrow> error + Instance" where
  "ReadInstance c s instanceID =
     (case GetState c s instanceID of
        Inl e \<Rightarrow> Inl StoreUnavailable
      | Inr None \<Rightarrow> Inl (NotFound instanceID)
      | Inr (Some instanceBytes) \<Rightarrow> unmarshalInstance instanceBytes)"

text \<open>
  In \<open>CreateInstance\<close> the error of the second index write is answered by
  \<^verbatim>\<open>return nil\<close>; the message of the already-exists error names \<open>labID\<close>.
\<close>

definition CreateInstance ::
  "ctx \<Rightarrow> ledger \<Rightarrow> string \<Rightarrow> string \<Rightarrow> string \<Rightarrow> string \<Rightarrow> string
     \<Rightarrow> error option \<times> ledger" where
  "CreateInstance c s instanceID labID classID config owner =
     (case InstanceExists c s instanceID of
        Inl e \<Rightarrow> (Some e, s)
      | Inr exists \<Rightarrow>
          (if exists then (Some (AlreadyExists labID), s)
           else
             (let instance = \<lparr>Instance_DocType = ''instance'', Instance_ID = instanceID, Instance_ClassID = classID,
                             Instance_LabID = labID, Instance_Config = config, Instance_Owner = owner\<rparr>
              in (case PutState c s instanceID (marshalInstance instance) of
                    Inl e \<Rightarrow> (Some e, s)
                  | Inr s0 \<Rightarrow>
                (case CreateCompositeKey index1 [Instance_LabID instance, Instance_ID instance] of
                   Inl e \<Rightarrow> (Some e, s0)
                 | Inr instanceNameIndex1Key \<Rightarrow>
                (case PutState c s0 instanceNameIndex1Key marker of
                   Inl e \<Rightarrow> (Some e, s0)
                 | Inr s1 \<Rightarrow>
                (case CreateCompositeKey index2 [Instance_ClassID instance, Instance_ID instance] of
                   Inl e \<Rightarrow> (Some e, s1)
                 | Inr instanceNameIndex2Key \<Rightarrow>
                (case PutState c s1 instanceNameIndex2Key marker of
                   Inl e \<Rightarrow> (None, s1)
                 | Inr s2 \<Rightarrow>
                (case CreateCompositeKey index3 [Instance_Owner instance, Instance_ID instance] of
                   Inl e \<Rightarrow> (Some e, s2)
                 | Inr instanceNameIndex3Key \<Rightarrow>
                (case PutState c s2 instanceNameIndex3Key marker of
                   Inl e \<Rightarrow> (Some e, s2)
                 | Inr s3 \<Rightarrow> (None, s3)))))))))))"

definition DeleteInstance :: "ctx \<Rightarrow> ledger \<Rightarrow> string \<Rightarrow> string \<Rightarrow> error option \<times> ledger" where
  "DeleteInstance c s instanceID clientID =
     (case ReadInstance c s instanceID of
        Inl e \<Rightarrow> (Some e, s)
      | Inr instance \<Rightarrow>
          (if clientID \<noteq> Instance_Owner instance then (Some Unauthorized, s)
           else
             (case DelState c s instanceID of
                Inl e \<Rightarrow> (Some e, s)
              | Inr s0 \<Rightarrow>
             (case CreateCompositeKey index1 [Instance_LabID instance, Instance_ID instance] of
                Inl e \<Rightarrow> (Some e, s0)
              | Inr instanceNameIndexKey1 \<Rightarrow>
             (case DelState c s0 instanceNameIndexKey1 of
                Inl e \<Rightarrow> (Some e, s0)
              | Inr s1 \<Rightarrow>
             (case CreateCompositeKey index2 [Instance_ClassID instance, Instance_ID instance] of
                Inl e \<Rightarrow> (Some e, s1)
              | Inr instanceNameIndexKey2 \<Rightarrow>
             (case DelState c s1 instanceNameIndexKey2 of
                Inl e \<Rightarrow> (Some e, s1)
              | Inr s2 \<Rightarrow>
             (case CreateCompositeKey index3 [Instance_Owner instance, Instance_ID instance] of
                Inl e \<Rightarrow> (Some e, s2)
              | Inr instanceNameIndexKey3 \<Rightarrow>
             (case DelState c s2 instanceNameIndexKey3 of
                Inl e \<Rightarrow> (Some e, s2)
              | Inr s3 \<Rightarrow> (None, s3))))))))))"

fun constructQueryResponseFromIterator_Instance_loop ::
  "iterator \<Rightarrow> Instance list \<Rightarrow> error + Instance list" where
  "constructQueryResponseFromIterator_Instance_loop [] instances = Inr instances"
| "constructQueryResponseFromIterator_Instance_loop (Inl e # it) instances = Inl e"
| "constructQueryResponseFromIterator_Instance_loop (Inr (k, v) # it) instances =
     (case unmarshalInstance v of
        Inl e \<Rightarrow> Inl e
      | Inr instance \<Rightarrow> constructQueryResponseFromIterator_Instance_loop it (instances @ [instance]))"

definition constructQueryResponseFromIterator_Instance :: "iterator \<Rightarrow> error + Instance list" where
  "constructQueryResponseFromIterator_Instance resultsIterator =
     constructQueryResponseFromIterator_Instance_loop resultsIterator []"

definition GetInstanceByRange :: "ctx \<Rightarrow> ledger \<Rightarrow> string \<Rightarrow> string \<Rightarrow> error + Instance list" where
  "GetInstanceByRange c s startKey endKey =
     (case GetStateByRange c s startKey endKey of
        Inl e \<Rightarrow> Inl e
      | Inr resultsIterator \<Rightarrow> constructQueryResponseFromIterator_Instance resultsIterator)"

section \<open>The Submission contract (lab.go, third part)\<close>

record Submission =
  Submission_DocType :: string
  Submission_ID :: string
  Submission_ClassID :: string
  Submission_LabID :: string
  Submission_Content :: string
  Submission_Owner :: string
  Submission_Score :: "32 word"

definition marshalSubmission :: "Submission \<Rightarrow> bytes" where
  "marshalSubmission r =
     JSON (JObject [(''docType'', JString (Submission_DocType r)),
                    (''ID'', JString (Submission_ID r)),
                    (''classID'', JString (Submission_ClassID r)),
                    (''labID'', JString (Submission_LabID r)),
                    (''content'', JString (Submission_Content r)),
                    (''owner'', JString (Submission_Owner r)),
                    (''score'', JNumber (uint (Submission_Score r)))])"

definition unmarshalSubmission :: "bytes \<Rightarrow> error + Submission" where
  "unmarshalSubmission b =
     (case b of
        Bytes _ \<Rightarrow> Inl UnmarshalError
      | JSON JNull \<Rightarrow>
          Inr \<lparr>Submission_DocType = [], Submission_ID = [], Submission_ClassID = [],
               Submission_LabID = [], Submission_Content = [], Submission_Owner = [],
               Submission_Score = 0\<rparr>
      | JSON (JObject kvs) \<Rightarrow>
          (case (those [decodeString ''docType'' kvs [], decodeString ''ID'' kvs [],
                        decodeString ''classID'' kvs [], decodeString ''labID'' kvs [],
                        decodeString ''content'' kvs [], decodeString ''owner'' kvs []],
                 decodeUint32 ''score'' kvs 0) of
             (Some [d, i, cl, la, ct, ow], Some sc) \<Rightarrow>
               Inr \<lparr>Submission_DocType = d, Submission_ID = i, Submission_ClassID = cl,
                    Submission_LabID = la, Submission_Content = ct, Submission_Owner = ow,
                    Submission_Score = sc\<rparr>
           | _ \<Rightarrow> Inl UnmarshalError)
      | JSON _ \<Rightarrow> Inl UnmarshalError)"

definition SubmissionExists :: "ctx \<Rightarrow> ledger \<Rightarrow> string \<Rightarrow> error + bool" where
  "SubmissionExists c s submissionID =
     (case GetState c s submissionID of
        Inl e \<Rightarrow> Inl StoreUnavailable
      | Inr submissionBytes \<Rightarrow> Inr (submissionBytes \<noteq> None))"

definition ReadSubmission :: "ctx \<Rightarrow> ledger \<Rightarrow> string \<Rightarrow> error + Submission" where
  "ReadSubmission c s submissionID =
     (case GetState c s submissionID of
        Inl e \<Rightarrow> Inl StoreUnavailable
      | Inr None \<Rightarrow> Inl (NotFound submissionID)
      | Inr (Some submissionBytes) \<Rightarrow> unmarshalSubmission submissionBytes)"

definition CreateSubmission ::
  "ctx \<Rightarrow> ledger \<Rightarrow> string \<Rightarrow> string \<Rightarrow> string \<Rightarrow> string \<Rightarrow> string
     \<Rightarrow> error option \<times> ledger" where
  "CreateSubmission c s submissionID labID classID content owner =
     (case SubmissionExists c s submissionID of
        Inl e \<Rightarrow> (Some e, s)
      | Inr exists \<Rightarrow>
          (if exists then (Some (AlreadyExists labID), s)
           else
             (let submission = \<lparr>Submission_DocType = ''submission'', Submission_ID = submissionID, Submission_ClassID = classID,
                             Submission_LabID = labID, Submission_Content = content, Submission_Owner = owner, Submission_Score = 0\<rparr>
              in (case PutState c s submissionID (marshalSubmission submission) of
                    Inl e \<Rightarrow> (Some e, s)
                  | Inr s0 \<Rightarrow>
                (case CreateCompositeKey index1 [Submission_LabID submission, Submission_ID submission] of
                   Inl e \<Rightarrow> (Some e, s0)
                 | Inr instanceNameIndex1Key \<Rightarrow>
                (case PutState c s0 instanceNameIndex1Key marker of
                   Inl e \<Rightarrow> (Some e, s0)
                 | Inr s1 \<Rightarrow>
                (case CreateCompositeKey index2 [Submission_ClassID submission, Submission_ID submission] of
                   Inl e \<Rightarrow> (Some e, s1)
                 | Inr instanceNameIndex2Key \<Rightarrow>
                (case PutState c s1 instanceNameIndex2Key marker of
                   Inl e \<Rightarrow> (None, s1)
                 | Inr s2 \<Rightarrow>
                (case CreateCompositeKey index3 [Submission_Owner submission, Submission_ID submission] of
                   Inl e \<Rightarrow> (Some e, s2)
                 | Inr instanceNameIndex3Key \<Rightarrow>
                (case PutState c s2 instanceNameIndex3Key marker of
                   Inl e \<Rightarrow> (Some e, s2)
                 | Inr s3 \<Rightarrow> (None, s3)))))))))))"

text \<open>The two operations below take no client identity and compare no owner.\<close>

definition DeleteSubmission :: "ctx \<Rightarrow> ledger \<Rightarrow> string \<Rightarrow> error option \<times> ledger" where
  "DeleteSubmission c s submissionID =
     (case ReadSubmission c s submissionID of
        Inl e \<Rightarrow> (Some e, s)
      | Inr submission \<Rightarrow>
             (case DelState c s submissionID of
                Inl e \<Rightarrow> (Some e, s)
              | Inr s0 \<Rightarrow>
             (case CreateCompositeKey index1 [Submission_LabID submission, Submission_ID submission] of
                Inl e \<Rightarrow> (Some e, s0)
              | Inr instanceNameIndexKey1 \<Rightarrow>
             (case DelState c s0 instanceNameIndexKey1 of
                Inl e \<Rightarrow> (Some e, s0)
              | Inr s1 \<Rightarrow>
             (case CreateCompositeKey index2 [Submission_ClassID submission, Submission_ID submission] of
                Inl e \<Rightarrow> (Some e, s1)
              | Inr instanceNameIndexKey2 \<Rightarrow>
             (case DelState c s1 instanceNameIndexKey2 of
                Inl e \<Rightarrow> (Some e, s1)
              | Inr s2 \<Rightarrow>
             (case CreateCompositeKey index3 [Submission_Owner submission, Submission_ID submission] of
                Inl e \<Rightarrow> (Some e, s2)
              | Inr instanceNameIndexKey3 \<Rightarrow>
             (case DelState c s2 instanceNameIndexKey3 of
                Inl e \<Rightarrow> (Some e, s2)
              | Inr s3 \<Rightarrow> (None, s3)))))))))"

definition UpdateSubmissionScore ::
  "ctx \<Rightarrow> ledger \<Rightarrow> string \<Rightarrow> 32 word \<Rightarrow> error option \<times> ledger" where
  "UpdateSubmissionScore c s submissionID newScore =
     (case ReadSubmission c s submissionID of
        Inl e \<Rightarrow> (Some e, s)
      | Inr submission \<Rightarrow>
          (case PutState c s submissionID
                  (marshalSubmission (submission\<lparr>Submission_Score := newScore\<rparr>)) of
             Inl e \<Rightarrow> (Some e, s)
           | Inr s' \<Rightarrow> (None, s')))"

fun constructQueryResponseFromIterator_Submission_loop ::
  "iterator \<Rightarrow> Submission list \<Rightarrow> error + Submission list" where
  "constructQueryResponseFromIterator_Submission_loop [] submissions = Inr submissions"
| "constructQueryResponseFromIterator_Submission_loop (Inl e # it) submissions = Inl e"
| "constructQueryResponseFromIterator_Submission_loop (Inr (k, v) # it) submissions =
     (case unmarshalSubmission v of
        Inl e \<Rightarrow> Inl e
      | Inr submission \<Rightarrow> constructQueryResponseFromIterator_Submission_loop it (submissions @ [submission]))"

definition constructQueryResponseFromIterator_Submission :: "iterator \<Rightarrow> error + Submission list" where
  "constructQueryResponseFromIterator_Submission resultsIterator =
     constructQueryResponseFromIterator_Submission_loop resultsIterator []"

definition GetSubmissionByRange :: "ctx \<Rightarrow> ledger \<Rightarrow> string \<Rightarrow> string \<Rightarrow> error + Submission list" where
  "GetSubmissionByRange c s startKey endKey =
     (case GetStateByRange c s startKey endKey of
        Inl e \<Rightarrow> Inl e
      | Inr resultsIterator \<Rightarrow> constructQueryResponseFromIterator_Submission resultsIterator)"

section \<open>Concrete contexts and world states\<close>

text \<open>
  The contexts and world states at which the theorems below are instantiated: a store
  in which no call fails, called by Tom (who has the \<^verbatim>\<open>class.creator\<close> attribute) or by
  Sam, and the world states that hold one record of each kind, owned by Tom.
\<close>

definition ctxTom :: ctx where
  "ctxTom = \<lparr>getFails = (\<lambda>_. False), putFails = (\<lambda>_. False), delFails = (\<lambda>_. False),
            rangeFails = (\<lambda>_ _. False), queryResult = (\<lambda>_ _. Inr []),
            rangePage = (\<lambda>_ _ _ _ _. Inr ([], \<lparr>FetchedRecordsCount = 0, Bookmark = []\<rparr>)),
            queryPage = (\<lambda>_ _ _ _. Inr ([], \<lparr>FetchedRecordsCount = 0, Bookmark = []\<rparr>)),
            GetID = Inr (Base64 ''Tom''),
            attributes = (\<lambda>n. if n = ''class.creator'' then Some ''true'' else None)\<rparr>"

definition ctxSam :: ctx where
  "ctxSam = ctxTom\<lparr>GetID := Inr (Base64 ''Sam'')\<rparr>"

definition class1 :: Class where
  "class1 = \<lparr>Class_ID = ''class1'', Class_Name = ''class1'', Class_Content = ''test'', Class_Owner = ''Tom''\<rparr>"

definition lab1 :: Lab where
  "lab1 = \<lparr>Lab_DocType = ''lab'', Lab_ID = ''lab1'', Lab_ClassID = ''class1'', Lab_Name = ''class1'',
           Lab_Content = ''test'', Lab_Image = ''1'', Lab_StartTime = ''2022'', Lab_EndTime = ''2022'',
           Lab_Owner = ''Tom''\<rparr>"

definition instance1 :: Instance where
  "instance1 = \<lparr>Instance_DocType = ''instance'', Instance_ID = ''instance1'',
                Instance_ClassID = ''class1'', Instance_LabID = ''lab1'', Instance_Config = ''test'',
                Instance_Owner = ''Tom''\<rparr>"

definition submission1 :: Submission where
  "submission1 = \<lparr>Submission_DocType = ''submission'', Submission_ID = ''submission1'',
                Submission_ClassID = ''class1'', Submission_LabID = ''lab1'', Submission_Content = ''test'',
                Submission_Owner = ''Tom'', Submission_Score = 0\<rparr>"

definition ledgerClass1 :: ledger where
  "ledgerClass1 = [(''class1'', marshalClass class1)]"

definition ledgerLab1 :: ledger where
  "ledgerLab1 = [(CHR 0x00 # ''classID~name'' @ CHR 0x00 # ''class1'' @ CHR 0x00 # ''lab1'' @ [CHR 0x00], marker),
                 (''lab1'', marshalLab lab1)]"

definition ledgerInstance1 :: ledger where
  "ledgerInstance1 =
     [(CHR 0x00 # ''classID~name'' @ CHR 0x00 # ''class1'' @ CHR 0x00 # ''instance1'' @ [CHR 0x00], marker),
      (CHR 0x00 # ''labID~name'' @ CHR 0x00 # ''lab1'' @ CHR 0x00 # ''instance1'' @ [CHR 0x00], marker),
      (CHR 0x00 # ''owner~name'' @ CHR 0x00 # ''Tom'' @ CHR 0x00 # ''instance1'' @ [CHR 0x00], marker),
      (''instance1'', marshalInstance instance1)]"

definition ledgerSubmission1 :: ledger where
  "ledgerSubmission1 =
     [(CHR 0x00 # ''classID~name'' @ CHR 0x00 # ''class1'' @ CHR 0x00 # ''submission1'' @ [CHR 0x00], marker),
      (CHR 0x00 # ''labID~name'' @ CHR 0x00 # ''lab1'' @ CHR 0x00 # ''submission1'' @ [CHR 0x00], marker),
      (CHR 0x00 # ''owner~name'' @ CHR 0x00 # ''Tom'' @ CHR 0x00 # ''submission1'' @ [CHR 0x00], marker),
      (''submission1'', marshalSubmission submission1)]"

text \<open>
  A store that refuses every write to the \<^verbatim>\<open>classID~name\<close> index (keys that start with
  \<^verbatim>\<open>"\x00classID~name\x00"\<close>) and accepts every other call.
\<close>

definition ctxIndex2Fails :: ctx where
  "ctxIndex2Fails = ctxTom\<lparr>putFails := (\<lambda>k. take 14 k = CHR 0x00 # ''classID~name'' @ [CHR 0x00])\<rparr>"

text \<open>
  A world state in which the key \<open>lab0\<close> holds a JSON document of another kind, whose
  \<open>ID\<close> member is a number.
\<close>

definition noteDoc :: bytes where
  "noteDoc = JSON (JObject [(''docType'', JString ''note''), (''ID'', JNumber 7)])"

definition ledgerUnparsable :: ledger where
  "ledgerUnparsable = [(''lab0'', noteDoc), (''lab1'', marshalLab lab1)]"

text \<open>
  Two state databases that answer every paginated call with the same single entry and
  with different metadata, whatever the page size.
\<close>

definition ctxPaged :: ctx where
  "ctxPaged = ctxTom
     \<lparr>rangePage := (\<lambda>s startKey endKey pageSize bookmark.
         Inr ([Inr (''lab1'', marshalLab lab1)], \<lparr>FetchedRecordsCount = 1, Bookmark = ''g1AAAA''\<rparr>)),
      queryPage := (\<lambda>s queryString pageSize bookmark.
         Inr ([Inr (''lab1'', marshalLab lab1)], \<lparr>FetchedRecordsCount = 1, Bookmark = ''g1AAAA''\<rparr>))\<rparr>"

definition ctxPaged' :: ctx where
  "ctxPaged' = ctxTom
     \<lparr>rangePage := (\<lambda>s startKey endKey pageSize bookmark.
         Inr ([Inr (''lab1'', marshalLab lab1)], \<lparr>FetchedRecordsCount = 7, Bookmark = ''g2BBBB''\<rparr>))\<rparr>"

section \<open>Notions used in the statements\<close>

text \<open>
  \<open>parses unmarshal x r\<close>: the iterator result \<open>x\<close> is an entry whose value decodes to the
  record \<open>r\<close>. \<open>decodeAll\<close> is the loop that the four contracts repeat, with the decoder
  as an argument.
\<close>

definition parses :: "(bytes \<Rightarrow> error + 'r) \<Rightarrow> (error + key \<times> bytes) \<Rightarrow> 'r \<Rightarrow> bool" where
  "parses unmarshal x r = (case x of Inl e \<Rightarrow> False | Inr (k, v) \<Rightarrow> unmarshal v = Inr r)"

fun decodeAll :: "(bytes \<Rightarrow> error + 'r) \<Rightarrow> iterator \<Rightarrow> 'r list \<Rightarrow> error + 'r list" where
  "decodeAll unmarshal [] acc = Inr acc"
| "decodeAll unmarshal (Inl e # it) acc = Inl e"
| "decodeAll unmarshal (Inr (k, v) # it) acc =
     (case unmarshal v of
        Inl e \<Rightarrow> Inl e
      | Inr r \<Rightarrow> decodeAll unmarshal it (acc @ [r]))"

text \<open>
  Modelled from the spec: the scan over an index's key prefix of section 8 (the contracts
  write their indexes and never read them). \<open>indexEntries s idx ident\<close> is the set of keys
  present in the world state \<open>s\<close> that are composite keys of the index \<open>idx\<close> with
  \<open>ident\<close> as last segment: the entries of the index that resolve to the record \<open>ident\<close>.
\<close>

definition indexEntries :: "ledger \<Rightarrow> string \<Rightarrow> string \<Rightarrow> key set" where
  "indexEntries s idx ident =
     {k. map_of s k \<noteq> None \<and> (\<exists>a. CreateCompositeKey idx [a, ident] = Inr k)}"

text \<open>
  Modelled from the spec: the index consistency invariant of section 3. For a record kind,
  \<open>dk k v = Some ks\<close> says that the value \<open>v\<close> under the key \<open>k\<close> is a primary entry of
  the kind (the stored form of a record whose \<open>ID\<close> is \<open>k\<close>) and that \<open>ks\<close> are the keys
  of its declared index entries, built from its current field values. A world state is
  consistent when every entry is either such a primary entry, all of whose index entries
  are present, or an index entry of a primary entry that is present. \<open>wellFormed\<close>
  collects what the three kinds with indexes share: a primary entry is not the marker, its
  key can be a key segment, and its index keys are composite keys that end in its key.
\<close>

definition consistent :: "(key \<Rightarrow> bytes \<Rightarrow> key list option) \<Rightarrow> ledger \<Rightarrow> bool" where
  "consistent dk s =
     (\<forall>k v. map_of s k = Some v \<longrightarrow>
        (\<exists>ks. dk k v = Some ks \<and> (\<forall>ik \<in> set ks. map_of s ik = Some marker)) \<or>
        (v = marker \<and> (\<exists>i w ks. map_of s i = Some w \<and> dk i w = Some ks \<and> k \<in> set ks)))"

definition wellFormed :: "(key \<Rightarrow> bytes \<Rightarrow> key list option) \<Rightarrow> bool" where
  "wellFormed dk =
     (\<forall>k v ks. dk k v = Some ks \<longrightarrow>
        v \<noteq> marker \<and> validateCompositeKeyAttribute k \<and>
        (\<forall>ik \<in> set ks. \<exists>idx a. CreateCompositeKey idx [a, k] = Inr ik))"

definition doc_Lab :: "key \<Rightarrow> bytes \<Rightarrow> key list option" where
  "doc_Lab k v =
     (case unmarshalLab v of
        Inl e \<Rightarrow> None
      | Inr lab \<Rightarrow>
          (if v = marshalLab lab \<and> Lab_ID lab = k then
             (case CreateCompositeKey index [Lab_ClassID lab, Lab_ID lab] of
                Inl e \<Rightarrow> None
              | Inr ik \<Rightarrow> Some [ik])
           else None))"

definition doc_Instance :: "key \<Rightarrow> bytes \<Rightarrow> key list option" where
  "doc_Instance k v =
     (case unmarshalInstance v of
        Inl e \<Rightarrow> None
      | Inr r \<Rightarrow>
          (if v = marshalInstance r \<and> Instance_ID r = k then
             (case (CreateCompositeKey index1 [Instance_LabID r, Instance_ID r],
                    CreateCompositeKey index2 [Instance_ClassID r, Instance_ID r],
                    CreateCompositeKey index3 [Instance_Owner r, Instance_ID r]) of
                (Inr k1, Inr k2, Inr k3) \<Rightarrow> Some [k1, k2, k3]
              | _ \<Rightarrow> None)
           else None))"

definition doc_Submission :: "key \<Rightarrow> bytes \<Rightarrow> key list option" where
  "doc_Submission k v =
     (case unmarshalSubmission v of
        Inl e \<Rightarrow> None
      | Inr r \<Rightarrow>
          (if v = marshalSubmission r \<and> Submission_ID r = k then
             (case (CreateCompositeKey index1 [Submission_LabID r, Submission_ID r],
                    CreateCompositeKey index2 [Submission_ClassID r, Submission_ID r],
                    CreateCompositeKey index3 [Submission_Owner r, Submission_ID r]) of
                (Inr k1, Inr k2, Inr k3) \<Rightarrow> Some [k1, k2, k3]
              | _ \<Rightarrow> None)
           else None))"

section \<open>Facts about the ledger, the encodings and composite keys\<close>

lemma map_of_put: "map_of (put k v s) k' = (if k' = k then Some v else map_of s k')"
  by (induction s) auto

lemma map_of_del: "map_of (del k s) k' = (if k' = k then None else map_of s k')"
  unfolding del_def by (induction s) auto

lemma unmarshalClass_marshalClass: "unmarshalClass (marshalClass r) = Inr r"
  by (simp add: unmarshalClass_def marshalClass_def)

lemma unmarshalLab_marshalLab: "unmarshalLab (marshalLab r) = Inr r"
  by (simp add: unmarshalLab_def marshalLab_def)

lemma unmarshalInstance_marshalInstance: "unmarshalInstance (marshalInstance r) = Inr r"
  by (simp add: unmarshalInstance_def marshalInstance_def)

lemma uint32_range: "0 \<le> uint (w :: 32 word) \<and> uint w < 2 ^ 32"
  using uint_lt2p [of w] by simp

lemma unmarshalSubmission_marshalSubmission: "unmarshalSubmission (marshalSubmission r) = Inr r"
  using uint32_range [of "Submission_Score r"]
  by (simp add: unmarshalSubmission_def marshalSubmission_def)

lemma unmarshal_marker:
  "unmarshalClass marker = Inl UnmarshalError"
  "unmarshalLab marker = Inl UnmarshalError"
  "unmarshalInstance marker = Inl UnmarshalError"
  "unmarshalSubmission marker = Inl UnmarshalError"
  by (simp_all add: marker_def unmarshalClass_def unmarshalLab_def unmarshalInstance_def
      unmarshalSubmission_def)

lemma split_at_terminator:
  "xs @ z # ys = xs' @ z # ys' \<Longrightarrow> z \<notin> set xs \<Longrightarrow> z \<notin> set xs' \<Longrightarrow> xs = xs' \<and> ys = ys'"
proof (induction xs arbitrary: xs')
  case Nil
  then show ?case by (cases xs') auto
next
  case (Cons x xs)
  then show ?case by (cases xs') auto
qed

lemma CreateCompositeKey_pair:
  "CreateCompositeKey idx [a, b] = Inr k \<longleftrightarrow>
     (validateCompositeKeyAttribute idx \<and> validateCompositeKeyAttribute a \<and>
      validateCompositeKeyAttribute b \<and> k = CHR 0x00 # idx @ CHR 0x00 # a @ CHR 0x00 # b @ [CHR 0x00])"
  by (auto simp: CreateCompositeKey_def)

lemma CreateCompositeKey_inject:
  assumes "CreateCompositeKey idx [a, b] = Inr k" and "CreateCompositeKey idx' [a', b'] = Inr k"
  shows "idx = idx' \<and> a = a' \<and> b = b'"
proof -
  from assms have v: "CHR 0x00 \<notin> set idx" "CHR 0x00 \<notin> set a" "CHR 0x00 \<notin> set b"
    "CHR 0x00 \<notin> set idx'" "CHR 0x00 \<notin> set a'" "CHR 0x00 \<notin> set b'"
    and e: "idx @ CHR 0x00 # a @ CHR 0x00 # b @ [CHR 0x00] = idx' @ CHR 0x00 # a' @ CHR 0x00 # b' @ [CHR 0x00]"
    by (auto simp: CreateCompositeKey_pair validateCompositeKeyAttribute_def)
  from split_at_terminator [OF e v(1) v(4)]
  have 1: "idx = idx'" and e2: "a @ CHR 0x00 # b @ [CHR 0x00] = a' @ CHR 0x00 # b' @ [CHR 0x00]" by auto
  from split_at_terminator [OF e2 v(2) v(5)]
  have 2: "a = a'" and e3: "b @ [CHR 0x00] = b' @ [CHR 0x00]" by auto
  from e3 have "b = b'" by simp
  with 1 2 show ?thesis by simp
qed

lemma CreateCompositeKey_not_attribute:
  "CreateCompositeKey idx [a, b] = Inr k \<Longrightarrow> \<not> validateCompositeKeyAttribute k"
  by (auto simp: CreateCompositeKey_pair validateCompositeKeyAttribute_def)

lemmas ctx_defs = ctxTom_def ctxSam_def
lemmas key_defs = CreateCompositeKey_def validateCompositeKeyAttribute_def inRange_def index_def
  index1_def index2_def index3_def
lemmas stub_defs = GetState_def PutState_def DelState_def


lemma ledgerLab1_created:
  "CreateLab ctxTom [] ''lab1'' ''class1'' ''class1'' ''test'' ''1'' ''2022'' ''2022'' ''Tom'' = (None, ledgerLab1)"
  by (simp add: CreateLab_def LabExists_def stub_defs ctx_defs key_defs ledgerLab1_def lab1_def)

lemma ledgerInstance1_created:
  "CreateInstance ctxTom [] ''instance1'' ''lab1'' ''class1'' ''test'' ''Tom'' = (None, ledgerInstance1)"
  by (simp add: CreateInstance_def InstanceExists_def stub_defs ctx_defs key_defs ledgerInstance1_def instance1_def)

lemma ledgerSubmission1_created:
  "CreateSubmission ctxTom [] ''submission1'' ''lab1'' ''class1'' ''test'' ''Tom'' = (None, ledgerSubmission1)"
  by (simp add: CreateSubmission_def SubmissionExists_def stub_defs ctx_defs key_defs ledgerSubmission1_def submission1_def)

lemma read_concrete:
  "ReadClass ctxSam ledgerClass1 ''class1'' = Inr class1"
  "ReadLab ctxSam ledgerLab1 ''lab1'' = Inr lab1"
  "ReadInstance ctxSam ledgerInstance1 ''instance1'' = Inr instance1"
  "ReadSubmission ctxSam ledgerSubmission1 ''submission1'' = Inr submission1"
  by (simp_all add: ReadClass_def ReadLab_def ReadInstance_def ReadSubmission_def stub_defs ctx_defs
      ledgerClass1_def ledgerLab1_def ledgerInstance1_def ledgerSubmission1_def
      unmarshalClass_marshalClass unmarshalLab_marshalLab unmarshalInstance_marshalInstance
      unmarshalSubmission_marshalSubmission)


lemma ctx_stub:
  "GetState ctxTom s k = Inr (map_of s k)" "GetState ctxSam s k = Inr (map_of s k)"
  "PutState ctxTom s k v = Inr (put k v s)" "PutState ctxSam s k v = Inr (put k v s)"
  "DelState ctxTom s k = Inr (del k s)" "DelState ctxSam s k = Inr (del k s)"
  by (simp_all add: stub_defs ctx_defs)


lemma CreateInstance_index2_fails:
  "CreateInstance ctxIndex2Fails [] ''instance1'' ''lab1'' ''class1'' ''test'' ''Tom'' =
     (None, [(CHR 0x00 # ''labID~name'' @ CHR 0x00 # ''lab1'' @ CHR 0x00 # ''instance1'' @ [CHR 0x00], marker),
             (''instance1'', marshalInstance instance1)])"
  by (simp add: CreateInstance_def InstanceExists_def stub_defs ctxIndex2Fails_def ctx_defs key_defs
      instance1_def)

lemma CreateSubmission_index2_fails:
  "CreateSubmission ctxIndex2Fails [] ''submission1'' ''lab1'' ''class1'' ''test'' ''Tom'' =
     (None, [(CHR 0x00 # ''labID~name'' @ CHR 0x00 # ''lab1'' @ CHR 0x00 # ''submission1'' @ [CHR 0x00], marker),
             (''submission1'', marshalSubmission submission1)])"
  by (simp add: CreateSubmission_def SubmissionExists_def stub_defs ctxIndex2Fails_def ctx_defs key_defs
      submission1_def)

lemma keys_instance1:
  "CreateCompositeKey index1 [Instance_LabID instance1, Instance_ID instance1]
     = Inr (CHR 0x00 # ''labID~name'' @ CHR 0x00 # ''lab1'' @ CHR 0x00 # ''instance1'' @ [CHR 0x00])"
  "CreateCompositeKey index2 [Instance_ClassID instance1, Instance_ID instance1]
     = Inr (CHR 0x00 # ''classID~name'' @ CHR 0x00 # ''class1'' @ CHR 0x00 # ''instance1'' @ [CHR 0x00])"
  "CreateCompositeKey index3 [Instance_Owner instance1, Instance_ID instance1]
     = Inr (CHR 0x00 # ''owner~name'' @ CHR 0x00 # ''Tom'' @ CHR 0x00 # ''instance1'' @ [CHR 0x00])"
  by (simp_all add: key_defs instance1_def)


lemma CreateLab_success:
  assumes "CreateLab c s labID classID name content img startTime endTime owner = (None, s')"
  shows "\<exists>k. CreateCompositeKey index [classID, labID] = Inr k \<and>
           map_of s labID = None \<and> \<not> getFails c labID \<and>
           s' = put k marker (put labID (marshalLab \<lparr>Lab_DocType = ''lab'', Lab_ID = labID,
                  Lab_ClassID = classID, Lab_Name = name, Lab_Content = content, Lab_Image = img,
                  Lab_StartTime = startTime, Lab_EndTime = endTime, Lab_Owner = owner\<rparr>) s)"
  using assms
  by (auto simp: CreateLab_def LabExists_def stub_defs Let_def split: if_splits sum.splits)

lemma CreateInstance_success:
  assumes "CreateInstance c s instanceID labID classID config owner = (None, s')"
  shows "\<exists>k1 k2. CreateCompositeKey index1 [labID, instanceID] = Inr k1 \<and>
           CreateCompositeKey index2 [classID, instanceID] = Inr k2 \<and>
           map_of s instanceID = None \<and> \<not> getFails c instanceID \<and>
           (let s1 = put k1 marker (put instanceID (marshalInstance
                  \<lparr>Instance_DocType = ''instance'', Instance_ID = instanceID,
                   Instance_ClassID = classID, Instance_LabID = labID, Instance_Config = config,
                   Instance_Owner = owner\<rparr>) s)
            in if putFails c k2 then s' = s1
               else (\<exists>k3. CreateCompositeKey index3 [owner, instanceID] = Inr k3 \<and>
                       s' = put k3 marker (put k2 marker s1)))"
  using assms
  by (auto simp: CreateInstance_def InstanceExists_def stub_defs Let_def split: if_splits sum.splits)

lemma CreateSubmission_success:
  assumes "CreateSubmission c s submissionID labID classID content owner = (None, s')"
  shows "\<exists>k1 k2. CreateCompositeKey index1 [labID, submissionID] = Inr k1 \<and>
           CreateCompositeKey index2 [classID, submissionID] = Inr k2 \<and>
           map_of s submissionID = None \<and> \<not> getFails c submissionID \<and>
           (let s1 = put k1 marker (put submissionID (marshalSubmission
                  \<lparr>Submission_DocType = ''submission'', Submission_ID = submissionID,
                   Submission_ClassID = classID, Submission_LabID = labID,
                   Submission_Content = content, Submission_Owner = owner,
                   Submission_Score = 0\<rparr>) s)
            in if putFails c k2 then s' = s1
               else (\<exists>k3. CreateCompositeKey index3 [owner, submissionID] = Inr k3 \<and>
                       s' = put k3 marker (put k2 marker s1)))"
  using assms
  by (auto simp: CreateSubmission_def SubmissionExists_def stub_defs Let_def split: if_splits sum.splits)






lemma loops_decodeAll:
  "constructQueryResponseFromIterator_loop it labs = decodeAll unmarshalLab it labs"
  "constructQueryResponseFromIterator_Instance_loop it instances
     = decodeAll unmarshalInstance it instances"
  "constructQueryResponseFromIterator_Submission_loop it submissions
     = decodeAll unmarshalSubmission it submissions"
  "GetAllClassses_loop it classes = decodeAll unmarshalClass it classes"
proof -
  show "constructQueryResponseFromIterator_loop it labs = decodeAll unmarshalLab it labs"
    by (induction it labs rule: constructQueryResponseFromIterator_loop.induct)
      (auto split: sum.splits)
  show "constructQueryResponseFromIterator_Instance_loop it instances
     = decodeAll unmarshalInstance it instances"
    by (induction it instances rule: constructQueryResponseFromIterator_Instance_loop.induct)
      (auto split: sum.splits)
  show "constructQueryResponseFromIterator_Submission_loop it submissions
     = decodeAll unmarshalSubmission it submissions"
    by (induction it submissions rule: constructQueryResponseFromIterator_Submission_loop.induct)
      (auto split: sum.splits)
  show "GetAllClassses_loop it classes = decodeAll unmarshalClass it classes"
    by (induction it classes rule: GetAllClassses_loop.induct) (auto split: sum.splits)
qed

lemma decodeAll_Inr:
  "decodeAll u it acc = Inr rs \<longleftrightarrow> (\<exists>rs'. rs = acc @ rs' \<and> list_all2 (parses u) it rs')"
proof (induction u it acc rule: decodeAll.induct)
  case (1 u acc)
  then show ?case by auto
next
  case (2 u e it acc)
  then show ?case by (auto simp: parses_def list_all2_Cons1)
next
  case (3 u k v it acc)
  show ?case
  proof (cases "u v")
    case (Inl e)
    then show ?thesis by (auto simp: parses_def list_all2_Cons1)
  next
    case (Inr r)
    with 3 show ?thesis by (auto simp: parses_def list_all2_Cons1)
  qed
qed

lemma decodeAll_Inl:
  "decodeAll u it acc = Inl e \<Longrightarrow>
     Inl e \<in> set it \<or> (\<exists>k v. Inr (k, v) \<in> set it \<and> u v = Inl e)"
proof (induction u it acc rule: decodeAll.induct)
  case (1 u acc)
  then show ?case by simp
next
  case (2 u e' it acc)
  then show ?case by simp
next
  case (3 u k v it acc)
  then show ?case by (cases "u v") auto
qed

lemma decodeAll_unparsable:
  assumes "Inr (k, v) \<in> set it" and "u v = Inl e"
  shows "\<exists>e'. decodeAll u it acc = Inl e'"
proof (cases "decodeAll u it acc")
  case (Inl e')
  then show ?thesis by simp
next
  case (Inr rs)
  then obtain rs' where "list_all2 (parses u) it rs'"
    by (auto simp: decodeAll_Inr)
  with assms(1) obtain r where "parses u (Inr (k, v)) r"
    by (auto simp: list_all2_conv_all_nth in_set_conv_nth)
  with assms(2) show ?thesis by (simp add: parses_def)
qed

lemma unmarshal_error:
  "unmarshalLab v = Inl e \<Longrightarrow> e = UnmarshalError"
  "unmarshalInstance v = Inl e \<Longrightarrow> e = UnmarshalError"
  "unmarshalSubmission v = Inl e \<Longrightarrow> e = UnmarshalError"
  "unmarshalClass v = Inl e \<Longrightarrow> e = UnmarshalError"
  by (auto simp: unmarshalLab_def unmarshalInstance_def unmarshalSubmission_def unmarshalClass_def
      split: bytes.splits json.splits option.splits list.splits)

lemma GetStateByRange_no_Next_error:
  "GetStateByRange c s startKey endKey = Inr it \<Longrightarrow> Inl e \<notin> set it"
  by (auto simp: GetStateByRange_def Let_def split: if_splits)

lemma range_scan:
  assumes "GetStateByRange c s startKey endKey = Inr it"
    and "\<And>v e. u v = Inl e \<Longrightarrow> e = UnmarshalError"
  shows "(decodeAll u it [] = Inr rs \<longleftrightarrow> list_all2 (parses u) it rs) \<and>
         ((\<exists>k v e. Inr (k, v) \<in> set it \<and> u v = Inl e) \<longrightarrow> decodeAll u it [] = Inl UnmarshalError)"
proof (intro conjI impI)
  show "decodeAll u it [] = Inr rs \<longleftrightarrow> list_all2 (parses u) it rs"
    by (simp add: decodeAll_Inr)
  assume "\<exists>k v e. Inr (k, v) \<in> set it \<and> u v = Inl e"
  then obtain e' where e': "decodeAll u it [] = Inl e'"
    using decodeAll_unparsable [where it = it and u = u and acc = "[]"] by blast
  from decodeAll_Inl [OF e'] GetStateByRange_no_Next_error [OF assms(1)]
  obtain v where "u v = Inl e'" by blast
  with assms(2) e' show "decodeAll u it [] = Inl UnmarshalError" by blast
qed

lemma range_ctxTom:
  "GetStateByRange ctxTom s [] [] = Inr (map Inr (filter (\<lambda>e. [CHR 0x01] \<le> fst e) s))"
  by (simp add: GetStateByRange_def validateSimpleKeys_def ctx_defs)

lemma range_ledgerUnparsable: "GetStateByRange ctxTom ledgerUnparsable [] []
     = Inr [Inr (''lab0'', noteDoc), Inr (''lab1'', marshalLab lab1)]"
    by (simp add: range_ctxTom ledgerUnparsable_def)

lemma paged_query:
  assumes "GetQueryResultWithPagination c s queryString (ucast pageSize) bookmark = Inr (it, md)"
  shows "QueryAssetsWithPagination c s queryString pageSize bookmark =
           (case decodeAll unmarshalLab it [] of
              Inl e \<Rightarrow> Inl e
            | Inr labs \<Rightarrow> Inr \<lparr>PQR_Labs = labs, PQR_FetchedRecordsCount = FetchedRecordsCount md,
                                PQR_Bookmark = Bookmark md\<rparr>)"
  using assms
  by (simp add: QueryAssetsWithPagination_def getQueryResultForQueryStringWithPagination_def
      constructQueryResponseFromIterator_def loops_decodeAll)

lemma paged_range:
  assumes "GetStateByRangeWithPagination c s startKey endKey (ucast pageSize) bookmark = Inr (it, md)"
  shows "GetAssetsByRangeWithPagination c s startKey endKey pageSize bookmark
           = decodeAll unmarshalLab it []"
  using assms
  by (simp add: GetAssetsByRangeWithPagination_def constructQueryResponseFromIterator_def
      loops_decodeAll)

lemma paged_store_error:
  "GetQueryResultWithPagination c s queryString (ucast pageSize) bookmark = Inl e \<Longrightarrow>
     QueryAssetsWithPagination c s queryString pageSize bookmark = Inl e"
  "GetStateByRangeWithPagination c s startKey endKey (ucast pageSize) bookmark = Inl e \<Longrightarrow>
     GetAssetsByRangeWithPagination c s startKey endKey pageSize bookmark = Inl e"
  by (simp_all add: QueryAssetsWithPagination_def getQueryResultForQueryStringWithPagination_def
      GetAssetsByRangeWithPagination_def)

lemma ctxPaged_calls:
  "GetQueryResultWithPagination ctxPaged s q n b
     = Inr ([Inr (''lab1'', marshalLab lab1)], \<lparr>FetchedRecordsCount = 1, Bookmark = ''g1AAAA''\<rparr>)"
  "GetStateByRangeWithPagination ctxPaged s k1 k2 n b
     = Inr ([Inr (''lab1'', marshalLab lab1)], \<lparr>FetchedRecordsCount = 1, Bookmark = ''g1AAAA''\<rparr>)"
  "GetStateByRangeWithPagination ctxPaged' s k1 k2 n b
     = Inr ([Inr (''lab1'', marshalLab lab1)], \<lparr>FetchedRecordsCount = 7, Bookmark = ''g2BBBB''\<rparr>)"
  by (simp_all add: GetQueryResultWithPagination_def GetStateByRangeWithPagination_def ctxPaged_def
      ctxPaged'_def)

lemma parses_lab1: "list_all2 (parses unmarshalLab) [Inr (''lab1'', marshalLab lab1)] [lab1]"
  by (simp add: parses_def unmarshalLab_marshalLab)










section \<open>Index consistency\<close>

text \<open>
  The facts of this section are about world states that satisfy \<open>consistent\<close>. The
  empty world state does, and every operation of the Lab, Instance and Submission
  contracts that reports success leads from a consistent world state to a consistent one
  (lemmas \<open>CreateLab_preserves\<close>, \<open>DeleteLab_preserves\<close>, \<open>UpdateLab_preserves\<close> and
  their counterparts), with one exception: \<open>CreateInstance\<close> and \<open>CreateSubmission\<close> need
  the write of the \<^verbatim>\<open>classID~name\<close> entry not to fail, since they report success when it
  does. An operation that reports an error is not committed by the ledger (section 5 of
  the spec: each operation is one atomic unit of work), so these are the world states
  that arise.
\<close>

lemma wf_marker: "wellFormed dk \<Longrightarrow> dk k marker = Some ks \<Longrightarrow> False"
  by (auto simp: wellFormed_def)

lemma wf_valid: "wellFormed dk \<Longrightarrow> dk k v = Some ks \<Longrightarrow> validateCompositeKeyAttribute k"
  by (auto simp: wellFormed_def)

lemma wf_key:
  "wellFormed dk \<Longrightarrow> dk k v = Some ks \<Longrightarrow> ik \<in> set ks \<Longrightarrow>
     \<exists>idx a. CreateCompositeKey idx [a, k] = Inr ik"
  by (auto simp: wellFormed_def)

lemma wf_key_not_primary:
  assumes "wellFormed dk" and "dk k v = Some ks" and "ik \<in> set ks" and "dk k' v' = Some ks'"
  shows "ik \<noteq> k'"
proof
  assume "ik = k'"
  with wf_valid [OF assms(1,4)] have "validateCompositeKeyAttribute ik" by simp
  moreover from wf_key [OF assms(1-3)] have "\<not> validateCompositeKeyAttribute ik"
    by (auto dest: CreateCompositeKey_not_attribute)
  ultimately show False by simp
qed

lemma wf_key_owner:
  assumes "wellFormed dk" and "dk k v = Some ks" and "ik \<in> set ks"
    and "CreateCompositeKey idx [a, k'] = Inr ik"
  shows "k' = k"
  using wf_key [OF assms(1-3)] assms(4) by (auto dest: CreateCompositeKey_inject)

lemma consistent_entry_of:
  assumes wf: "wellFormed dk" and c: "consistent dk s"
    and ik: "CreateCompositeKey idx [a, k] = Inr ik" and p: "map_of s ik \<noteq> None"
  shows "\<exists>v ks. map_of s k = Some v \<and> dk k v = Some ks \<and> ik \<in> set ks"
proof -
  from p obtain x where x: "map_of s ik = Some x" by auto
  from c x consider
    (doc) ks where "dk ik x = Some ks" |
    (entry) i w ks where "map_of s i = Some w" "dk i w = Some ks" "ik \<in> set ks"
    unfolding consistent_def by blast
  then show ?thesis
  proof cases
    case doc
    from wf_valid [OF wf doc] CreateCompositeKey_not_attribute [OF ik] show ?thesis by simp
  next
    case entry
    from wf_key_owner [OF wf entry(2,3) ik] entry show ?thesis by auto
  qed
qed

lemma consistent_create:
  assumes wf: "wellFormed dk" and c: "consistent dk s"
    and fresh: "map_of s k = None" and d: "dk k v = Some ks"
    and s': "\<And>x. map_of s' x = (if x \<in> set ks then Some marker else if x = k then Some v else map_of s x)"
  shows "consistent dk s'"
  unfolding consistent_def
proof (intro allI impI)
  fix x y assume xy: "map_of s' x = Some y"
  have knot: "k \<notin> set ks"
    using wf_key_not_primary [OF wf d _ d] by blast
  have new: "map_of s' k = Some v" using knot by (simp add: s')
  show "(\<exists>ks. dk x y = Some ks \<and> (\<forall>ik \<in> set ks. map_of s' ik = Some marker)) \<or>
        (y = marker \<and> (\<exists>i w ks. map_of s' i = Some w \<and> dk i w = Some ks \<and> x \<in> set ks))"
  proof (cases "x \<in> set ks")
    case True
    with xy have "y = marker" by (simp add: s')
    with True new d show ?thesis by blast
  next
    case False
    show ?thesis
    proof (cases "x = k")
      case True
      with xy knot have "y = v" by (simp add: s')
      moreover have "\<forall>ik \<in> set ks. map_of s' ik = Some marker" by (simp add: s')
      ultimately show ?thesis using d True by blast
    next
      case xk: False
      with False xy have old: "map_of s x = Some y" by (simp add: s')
      from c old consider
        (doc) ks' where "dk x y = Some ks'" "\<forall>ik \<in> set ks'. map_of s ik = Some marker" |
        (entry) i w ks' where "y = marker" "map_of s i = Some w" "dk i w = Some ks'" "x \<in> set ks'"
        unfolding consistent_def by blast
      then show ?thesis
      proof cases
        case doc
        have "\<forall>ik \<in> set ks'. map_of s' ik = Some marker"
        proof
          fix ik assume "ik \<in> set ks'"
          with doc(2) have m: "map_of s ik = Some marker" by simp
          with fresh have "ik \<noteq> k" by auto
          with m show "map_of s' ik = Some marker" by (simp add: s')
        qed
        with doc(1) show ?thesis by blast
      next
        case entry
        from entry(2) fresh have ik: "i \<noteq> k" by auto
        have "i \<notin> set ks"
          using wf_key_not_primary [OF wf d _ entry(3)] by blast
        with ik entry(2) have "map_of s' i = Some w" by (simp add: s')
        with entry show ?thesis by blast
      qed
    qed
  qed
qed

lemma consistent_delete:
  assumes wf: "wellFormed dk" and c: "consistent dk s"
    and ex: "map_of s k = Some v" and d: "dk k v = Some ks"
    and s': "\<And>x. map_of s' x = (if x = k \<or> x \<in> set ks then None else map_of s x)"
  shows "consistent dk s'"
  unfolding consistent_def
proof (intro allI impI)
  fix x y assume xy: "map_of s' x = Some y"
  then have xk: "x \<noteq> k" and xks: "x \<notin> set ks" and old: "map_of s x = Some y"
    by (auto simp: s' split: if_splits)
  from c old consider
    (doc) ks' where "dk x y = Some ks'" "\<forall>ik \<in> set ks'. map_of s ik = Some marker" |
    (entry) i w ks' where "y = marker" "map_of s i = Some w" "dk i w = Some ks'" "x \<in> set ks'"
    unfolding consistent_def by blast
  then show "(\<exists>ks. dk x y = Some ks \<and> (\<forall>ik \<in> set ks. map_of s' ik = Some marker)) \<or>
        (y = marker \<and> (\<exists>i w ks. map_of s' i = Some w \<and> dk i w = Some ks \<and> x \<in> set ks))"
  proof cases
    case doc
    have "\<forall>ik \<in> set ks'. map_of s' ik = Some marker"
    proof
      fix ik assume m: "ik \<in> set ks'"
      with doc(2) have o: "map_of s ik = Some marker" by simp
      have 1: "ik \<noteq> k" using wf_key_not_primary [OF wf doc(1) m d] .
      have 2: "ik \<notin> set ks"
      proof
        assume "ik \<in> set ks"
        from wf_key [OF wf d this] obtain idx a where "CreateCompositeKey idx [a, k] = Inr ik"
          by blast
        from wf_key_owner [OF wf doc(1) m this] xk show False by simp
      qed
      from 1 2 o show "map_of s' ik = Some marker" by (simp add: s')
    qed
    with doc(1) show ?thesis by blast
  next
    case entry
    have ik: "i \<noteq> k"
    proof
      assume "i = k"
      with entry(2,3) ex d have "ks' = ks" by simp
      with entry(4) xks show False by simp
    qed
    have "i \<notin> set ks"
      using wf_key_not_primary [OF wf d _ entry(3)] by blast
    with ik entry(2) have "map_of s' i = Some w" by (simp add: s')
    with entry show ?thesis by blast
  qed
qed

lemma consistent_update:
  assumes wf: "wellFormed dk" and c: "consistent dk s"
    and ex: "map_of s k = Some v" and d: "dk k v = Some ks" and d': "dk k v' = Some ks"
    and s': "\<And>x. map_of s' x = (if x = k then Some v' else map_of s x)"
  shows "consistent dk s'"
  unfolding consistent_def
proof (intro allI impI)
  fix x y assume xy: "map_of s' x = Some y"
  have vm: "v \<noteq> marker"
    using wf d by (auto simp: wellFormed_def)
  have keep: "map_of s ik = Some marker \<Longrightarrow> map_of s' ik = Some marker" for ik
    using ex vm by (cases "ik = k") (simp_all add: s')
  show "(\<exists>ks. dk x y = Some ks \<and> (\<forall>ik \<in> set ks. map_of s' ik = Some marker)) \<or>
        (y = marker \<and> (\<exists>i w ks. map_of s' i = Some w \<and> dk i w = Some ks \<and> x \<in> set ks))"
  proof (cases "x = k")
    case True
    with xy have y: "y = v'" by (simp add: s')
    from c ex d have "\<forall>ik \<in> set ks. map_of s ik = Some marker"
      unfolding consistent_def using wf_marker [OF wf] by fastforce
    with keep have "\<forall>ik \<in> set ks. map_of s' ik = Some marker" by blast
    with y True d' show ?thesis by blast
  next
    case False
    with xy have old: "map_of s x = Some y" by (simp add: s')
    from c old consider
      (doc) ks' where "dk x y = Some ks'" "\<forall>ik \<in> set ks'. map_of s ik = Some marker" |
      (entry) i w ks' where "y = marker" "map_of s i = Some w" "dk i w = Some ks'" "x \<in> set ks'"
      unfolding consistent_def by blast
    then show ?thesis
    proof cases
      case doc
      with keep show ?thesis by blast
    next
      case entry
      show ?thesis
      proof (cases "i = k")
        case True
        with entry ex d have "ks' = ks" by simp
        moreover have "map_of s' k = Some v'" by (simp add: s')
        ultimately show ?thesis using entry d' by blast
      next
        case False
        with entry(2) have "map_of s' i = Some w" by (simp add: s')
        with entry show ?thesis by blast
      qed
    qed
  qed
qed

lemma consistent_empty: "consistent dk []"
  by (simp add: consistent_def)

lemma marshal_not_marker:
  "marshalClass a \<noteq> marker" "marshalLab b \<noteq> marker" "marshalInstance c \<noteq> marker"
  "marshalSubmission d \<noteq> marker"
  by (simp_all add: marker_def marshalClass_def marshalLab_def marshalInstance_def
      marshalSubmission_def)

lemma marshal_inject:
  "marshalClass a = marshalClass a' \<longleftrightarrow> a = a'"
  "marshalLab b = marshalLab b' \<longleftrightarrow> b = b'"
  "marshalInstance c = marshalInstance c' \<longleftrightarrow> c = c'"
  "marshalSubmission d = marshalSubmission d' \<longleftrightarrow> d = d'"
proof -
  show "marshalClass a = marshalClass a' \<longleftrightarrow> a = a'"
  proof
    assume "marshalClass a = marshalClass a'"
    then have "unmarshalClass (marshalClass a) = unmarshalClass (marshalClass a')"
      by (rule arg_cong)
    then show "a = a'" by (simp only: unmarshalClass_marshalClass sum.inject)
  qed simp
  show "marshalLab b = marshalLab b' \<longleftrightarrow> b = b'"
  proof
    assume "marshalLab b = marshalLab b'"
    then have "unmarshalLab (marshalLab b) = unmarshalLab (marshalLab b')"
      by (rule arg_cong)
    then show "b = b'" by (simp only: unmarshalLab_marshalLab sum.inject)
  qed simp
  show "marshalInstance c = marshalInstance c' \<longleftrightarrow> c = c'"
  proof
    assume "marshalInstance c = marshalInstance c'"
    then have "unmarshalInstance (marshalInstance c) = unmarshalInstance (marshalInstance c')"
      by (rule arg_cong)
    then show "c = c'" by (simp only: unmarshalInstance_marshalInstance sum.inject)
  qed simp
  show "marshalSubmission d = marshalSubmission d' \<longleftrightarrow> d = d'"
  proof
    assume "marshalSubmission d = marshalSubmission d'"
    then have "unmarshalSubmission (marshalSubmission d) = unmarshalSubmission (marshalSubmission d')"
      by (rule arg_cong)
    then show "d = d'" by (simp only: unmarshalSubmission_marshalSubmission sum.inject)
  qed simp
qed

lemma doc_Lab_Some:
  "doc_Lab k v = Some ks \<longleftrightarrow>
     (\<exists>lab ik. v = marshalLab lab \<and> Lab_ID lab = k \<and>
        CreateCompositeKey index [Lab_ClassID lab, k] = Inr ik \<and> ks = [ik])"
  by (auto simp: doc_Lab_def unmarshalLab_marshalLab marshal_inject split: sum.splits)

lemma wellFormed_Lab: "wellFormed doc_Lab"
  unfolding wellFormed_def
  by (auto simp: doc_Lab_Some marshal_not_marker CreateCompositeKey_pair)

lemma deleted_no_entries:
  assumes wf: "wellFormed dk" and c: "consistent dk s"
    and ex: "map_of s k = Some v" and d: "dk k v = Some ks"
    and s': "\<And>x. map_of s' x = (if x = k \<or> x \<in> set ks then None else map_of s x)"
  shows "indexEntries s' idx k = {}"
proof -
  have False if "x \<in> indexEntries s' idx k" for x
  proof -
    from that obtain a where a: "CreateCompositeKey idx [a, k] = Inr x" and p: "map_of s' x \<noteq> None"
      by (auto simp: indexEntries_def)
    from p have x: "x \<notin> set ks" and o: "map_of s x \<noteq> None"
      by (auto simp: s' split: if_splits)
    from consistent_entry_of [OF wf c a o] ex d x show False by auto
  qed
  then show ?thesis by blast
qed


lemma ReadLab_Inr:
  "ReadLab c s labID = Inr lab \<longleftrightarrow>
     \<not> getFails c labID \<and> (\<exists>v. map_of s labID = Some v \<and> unmarshalLab v = Inr lab)"
  by (auto simp: ReadLab_def GetState_def split: option.splits)

lemma consistent_Lab_read:
  assumes c: "consistent doc_Lab s" and r: "ReadLab ctx s labID = Inr lab"
  shows "map_of s labID = Some (marshalLab lab) \<and> Lab_ID lab = labID \<and>
         (\<exists>ik. CreateCompositeKey index [Lab_ClassID lab, Lab_ID lab] = Inr ik \<and>
               doc_Lab labID (marshalLab lab) = Some [ik])"
proof -
  from r obtain v where v: "map_of s labID = Some v" and u: "unmarshalLab v = Inr lab"
    by (auto simp: ReadLab_Inr)
  from u have "v \<noteq> marker" by (auto simp: unmarshal_marker)
  with c v obtain ks where "doc_Lab labID v = Some ks"
    unfolding consistent_def by blast
  then obtain lab' ik where "v = marshalLab lab'" "Lab_ID lab' = labID"
    "CreateCompositeKey index [Lab_ClassID lab', labID] = Inr ik" "ks = [ik]"
    by (auto simp: doc_Lab_Some)
  moreover with u have "lab' = lab" by (simp add: unmarshalLab_marshalLab)
  ultimately show ?thesis using v by (auto simp: doc_Lab_Some)
qed

lemma DeleteLab_consistent:
  assumes c: "consistent doc_Lab s" and r: "ReadLab ctx s labID = Inr lab"
    and o: "clientID = Lab_Owner lab" and nd: "\<And>k. \<not> delFails ctx k"
  shows "\<exists>s'. DeleteLab ctx s labID clientID = (None, s') \<and> consistent doc_Lab s' \<and>
           LabExists ctx s' labID = Inr False \<and> indexEntries s' index labID = {}"
proof -
  from consistent_Lab_read [OF c r] obtain ik where
    v: "map_of s labID = Some (marshalLab lab)" and i: "Lab_ID lab = labID" and
    ik: "CreateCompositeKey index [Lab_ClassID lab, Lab_ID lab] = Inr ik" and
    d: "doc_Lab labID (marshalLab lab) = Some [ik]"
    by blast
  let ?s' = "del ik (del labID s)"
  have e: "DeleteLab ctx s labID clientID = (None, ?s')"
    using r o ik nd by (simp add: DeleteLab_def DelState_def)
  have m: "map_of ?s' x = (if x = labID \<or> x \<in> set [ik] then None else map_of s x)" for x
    by (simp add: map_of_del)
  from r have g: "\<not> getFails ctx labID" by (simp add: ReadLab_Inr)
  have "LabExists ctx ?s' labID = Inr False"
    using g by (simp add: LabExists_def GetState_def m)
  moreover note consistent_delete [OF wellFormed_Lab c v d m]
    deleted_no_entries [OF wellFormed_Lab c v d m, of index]
  ultimately show ?thesis using e by blast
qed




lemma doc_Instance_Some:
  "doc_Instance k v = Some ks \<longleftrightarrow>
     (\<exists>r k1 k2 k3. v = marshalInstance r \<and> Instance_ID r = k \<and>
        CreateCompositeKey index1 [Instance_LabID r, k] = Inr k1 \<and>
        CreateCompositeKey index2 [Instance_ClassID r, k] = Inr k2 \<and>
        CreateCompositeKey index3 [Instance_Owner r, k] = Inr k3 \<and> ks = [k1, k2, k3])"
  by (auto simp: doc_Instance_def unmarshalInstance_marshalInstance marshal_inject split: sum.splits)

lemma wellFormed_Instance: "wellFormed doc_Instance"
  unfolding wellFormed_def
proof (intro allI impI)
  fix k v ks assume "doc_Instance k v = Some ks"
  then obtain r k1 k2 k3 where v: "v = marshalInstance r" and
    k: "CreateCompositeKey index1 [Instance_LabID r, k] = Inr k1"
       "CreateCompositeKey index2 [Instance_ClassID r, k] = Inr k2"
       "CreateCompositeKey index3 [Instance_Owner r, k] = Inr k3" and ks: "ks = [k1, k2, k3]"
    by (auto simp: doc_Instance_Some)
  from k(1) have "validateCompositeKeyAttribute k"
    by (simp add: CreateCompositeKey_pair)
  moreover from v have "v \<noteq> marker"
    by (simp add: marshal_not_marker)
  moreover from k ks have "\<forall>ik \<in> set ks. \<exists>idx a. CreateCompositeKey idx [a, k] = Inr ik"
    by auto
  ultimately show "v \<noteq> marker \<and> validateCompositeKeyAttribute k \<and>
        (\<forall>ik \<in> set ks. \<exists>idx a. CreateCompositeKey idx [a, k] = Inr ik)"
    by blast
qed

lemma ReadInstance_Inr:
  "ReadInstance c s instanceID = Inr r \<longleftrightarrow>
     \<not> getFails c instanceID \<and> (\<exists>v. map_of s instanceID = Some v \<and> unmarshalInstance v = Inr r)"
  by (auto simp: ReadInstance_def GetState_def split: option.splits)

lemma consistent_Instance_read:
  assumes c: "consistent doc_Instance s" and r: "ReadInstance ctx s instanceID = Inr r"
  shows "map_of s instanceID = Some (marshalInstance r) \<and> Instance_ID r = instanceID \<and>
         (\<exists>k1 k2 k3. CreateCompositeKey index1 [Instance_LabID r, Instance_ID r] = Inr k1 \<and>
            CreateCompositeKey index2 [Instance_ClassID r, Instance_ID r] = Inr k2 \<and>
            CreateCompositeKey index3 [Instance_Owner r, Instance_ID r] = Inr k3 \<and>
            doc_Instance instanceID (marshalInstance r) = Some [k1, k2, k3])"
proof -
  from r obtain v where v: "map_of s instanceID = Some v" and u: "unmarshalInstance v = Inr r"
    by (auto simp: ReadInstance_Inr)
  from u have "v \<noteq> marker" by (auto simp: unmarshal_marker)
  with c v obtain ks where "doc_Instance instanceID v = Some ks"
    unfolding consistent_def by blast
  then obtain r' k1 k2 k3 where "v = marshalInstance r'" "Instance_ID r' = instanceID"
    "CreateCompositeKey index1 [Instance_LabID r', instanceID] = Inr k1"
    "CreateCompositeKey index2 [Instance_ClassID r', instanceID] = Inr k2"
    "CreateCompositeKey index3 [Instance_Owner r', instanceID] = Inr k3" "ks = [k1, k2, k3]"
    by (auto simp: doc_Instance_Some)
  moreover with u have "r' = r" by (simp add: unmarshalInstance_marshalInstance)
  ultimately show ?thesis using v by (auto simp: doc_Instance_Some marshal_inject)
qed

lemma DeleteInstance_consistent:
  assumes c: "consistent doc_Instance s" and r: "ReadInstance ctx s instanceID = Inr r"
    and o: "clientID = Instance_Owner r"
    and nd: "\<And>k. \<not> delFails ctx k"
  shows "\<exists>s'. DeleteInstance ctx s instanceID clientID = (None, s') \<and> consistent doc_Instance s' \<and>
           InstanceExists ctx s' instanceID = Inr False \<and> indexEntries s' index1 instanceID = {} \<and>
           indexEntries s' index2 instanceID = {} \<and> indexEntries s' index3 instanceID = {}"
proof -
  from consistent_Instance_read [OF c r] obtain k1 k2 k3 where
    v: "map_of s instanceID = Some (marshalInstance r)" and i: "Instance_ID r = instanceID" and
    k: "CreateCompositeKey index1 [Instance_LabID r, Instance_ID r] = Inr k1"
       "CreateCompositeKey index2 [Instance_ClassID r, Instance_ID r] = Inr k2"
       "CreateCompositeKey index3 [Instance_Owner r, Instance_ID r] = Inr k3" and
    d: "doc_Instance instanceID (marshalInstance r) = Some [k1, k2, k3]"
    by blast
  let ?s' = "del k3 (del k2 (del k1 (del instanceID s)))"
  have e: "DeleteInstance ctx s instanceID clientID = (None, ?s')"
    using r o k nd by (simp add: DeleteInstance_def DelState_def)
  have m: "map_of ?s' x = (if x = instanceID \<or> x \<in> set [k1, k2, k3] then None else map_of s x)" for x
    by (simp add: map_of_del)
  from r have g: "\<not> getFails ctx instanceID" by (simp add: ReadInstance_Inr)
  have "InstanceExists ctx ?s' instanceID = Inr False"
    using g by (simp add: InstanceExists_def GetState_def m)
  moreover note consistent_delete [OF wellFormed_Instance c v d m]
    deleted_no_entries [OF wellFormed_Instance c v d m, of index1]
    deleted_no_entries [OF wellFormed_Instance c v d m, of index2]
    deleted_no_entries [OF wellFormed_Instance c v d m, of index3]
  ultimately show ?thesis using e by blast
qed


lemma doc_Submission_Some:
  "doc_Submission k v = Some ks \<longleftrightarrow>
     (\<exists>r k1 k2 k3. v = marshalSubmission r \<and> Submission_ID r = k \<and>
        CreateCompositeKey index1 [Submission_LabID r, k] = Inr k1 \<and>
        CreateCompositeKey index2 [Submission_ClassID r, k] = Inr k2 \<and>
        CreateCompositeKey index3 [Submission_Owner r, k] = Inr k3 \<and> ks = [k1, k2, k3])"
  by (auto simp: doc_Submission_def unmarshalSubmission_marshalSubmission marshal_inject split: sum.splits)

lemma wellFormed_Submission: "wellFormed doc_Submission"
  unfolding wellFormed_def
proof (intro allI impI)
  fix k v ks assume "doc_Submission k v = Some ks"
  then obtain r k1 k2 k3 where v: "v = marshalSubmission r" and
    k: "CreateCompositeKey index1 [Submission_LabID r, k] = Inr k1"
       "CreateCompositeKey index2 [Submission_ClassID r, k] = Inr k2"
       "CreateCompositeKey index3 [Submission_Owner r, k] = Inr k3" and ks: "ks = [k1, k2, k3]"
    by (auto simp: doc_Submission_Some)
  from k(1) have "validateCompositeKeyAttribute k"
    by (simp add: CreateCompositeKey_pair)
  moreover from v have "v \<noteq> marker"
    by (simp add: marshal_not_marker)
  moreover from k ks have "\<forall>ik \<in> set ks. \<exists>idx a. CreateCompositeKey idx [a, k] = Inr ik"
    by auto
  ultimately show "v \<noteq> marker \<and> validateCompositeKeyAttribute k \<and>
        (\<forall>ik \<in> set ks. \<exists>idx a. CreateCompositeKey idx [a, k] = Inr ik)"
    by blast
qed

lemma ReadSubmission_Inr:
  "ReadSubmission c s submissionID = Inr r \<longleftrightarrow>
     \<not> getFails c submissionID \<and> (\<exists>v. map_of s submissionID = Some v \<and> unmarshalSubmission v = Inr r)"
  by (auto simp: ReadSubmission_def GetState_def split: option.splits)

lemma consistent_Submission_read:
  assumes c: "consistent doc_Submission s" and r: "ReadSubmission ctx s submissionID = Inr r"
  shows "map_of s submissionID = Some (marshalSubmission r) \<and> Submission_ID r = submissionID \<and>
         (\<exists>k1 k2 k3. CreateCompositeKey index1 [Submission_LabID r, Submission_ID r] = Inr k1 \<and>
            CreateCompositeKey index2 [Submission_ClassID r, Submission_ID r] = Inr k2 \<and>
            CreateCompositeKey index3 [Submission_Owner r, Submission_ID r] = Inr k3 \<and>
            doc_Submission submissionID (marshalSubmission r) = Some [k1, k2, k3])"
proof -
  from r obtain v where v: "map_of s submissionID = Some v" and u: "unmarshalSubmission v = Inr r"
    by (auto simp: ReadSubmission_Inr)
  from u have "v \<noteq> marker" by (auto simp: unmarshal_marker)
  with c v obtain ks where "doc_Submission submissionID v = Some ks"
    unfolding consistent_def by blast
  then obtain r' k1 k2 k3 where "v = marshalSubmission r'" "Submission_ID r' = submissionID"
    "CreateCompositeKey index1 [Submission_LabID r', submissionID] = Inr k1"
    "CreateCompositeKey index2 [Submission_ClassID r', submissionID] = Inr k2"
    "CreateCompositeKey index3 [Submission_Owner r', submissionID] = Inr k3" "ks = [k1, k2, k3]"
    by (auto simp: doc_Submission_Some)
  moreover with u have "r' = r" by (simp add: unmarshalSubmission_marshalSubmission)
  ultimately show ?thesis using v by (auto simp: doc_Submission_Some marshal_inject)
qed

lemma DeleteSubmission_consistent:
  assumes c: "consistent doc_Submission s" and r: "ReadSubmission ctx s submissionID = Inr r"
    and nd: "\<And>k. \<not> delFails ctx k"
  shows "\<exists>s'. DeleteSubmission ctx s submissionID = (None, s') \<and> consistent doc_Submission s' \<and>
           SubmissionExists ctx s' submissionID = Inr False \<and> indexEntries s' index1 submissionID = {} \<and>
           indexEntries s' index2 submissionID = {} \<and> indexEntries s' index3 submissionID = {}"
proof -
  from consistent_Submission_read [OF c r] obtain k1 k2 k3 where
    v: "map_of s submissionID = Some (marshalSubmission r)" and i: "Submission_ID r = submissionID" and
    k: "CreateCompositeKey index1 [Submission_LabID r, Submission_ID r] = Inr k1"
       "CreateCompositeKey index2 [Submission_ClassID r, Submission_ID r] = Inr k2"
       "CreateCompositeKey index3 [Submission_Owner r, Submission_ID r] = Inr k3" and
    d: "doc_Submission submissionID (marshalSubmission r) = Some [k1, k2, k3]"
    by blast
  let ?s' = "del k3 (del k2 (del k1 (del submissionID s)))"
  have e: "DeleteSubmission ctx s submissionID = (None, ?s')"
    using r k nd by (simp add: DeleteSubmission_def DelState_def)
  have m: "map_of ?s' x = (if x = submissionID \<or> x \<in> set [k1, k2, k3] then None else map_of s x)" for x
    by (simp add: map_of_del)
  from r have g: "\<not> getFails ctx submissionID" by (simp add: ReadSubmission_Inr)
  have "SubmissionExists ctx ?s' submissionID = Inr False"
    using g by (simp add: SubmissionExists_def GetState_def m)
  moreover note consistent_delete [OF wellFormed_Submission c v d m]
    deleted_no_entries [OF wellFormed_Submission c v d m, of index1]
    deleted_no_entries [OF wellFormed_Submission c v d m, of index2]
    deleted_no_entries [OF wellFormed_Submission c v d m, of index3]
  ultimately show ?thesis using e by blast
qed


lemma DeleteClass_owner:
  assumes "ReadClass ctx s ident = Inr cls" and "GetSubmittingClientIdentity ctx = Inr (Class_Owner cls)"
    and "\<not> delFails ctx ident"
  shows "DeleteClass ctx s ident = (None, del ident s) \<and> ClassExists ctx (del ident s) ident = Inr False"
  using assms
  by (auto simp: DeleteClass_def DelState_def ClassExists_def ReadClass_def GetState_def map_of_del
      split: if_splits)


lemma DeleteLab_success:
  assumes "DeleteLab ctx s labID clientID = (None, s')"
  shows "\<exists>lab ik. ReadLab ctx s labID = Inr lab \<and>
           CreateCompositeKey index [Lab_ClassID lab, Lab_ID lab] = Inr ik \<and>
           s' = del ik (del labID s)"
  using assms
  by (auto simp: DeleteLab_def DelState_def split: sum.splits if_splits)

lemma DeleteLab_preserves:
  assumes c: "consistent doc_Lab s" and e: "DeleteLab ctx s labID clientID = (None, s')"
  shows "consistent doc_Lab s'"
proof -
  from DeleteLab_success [OF e] obtain lab ik where
    r: "ReadLab ctx s labID = Inr lab" and
    ik: "CreateCompositeKey index [Lab_ClassID lab, Lab_ID lab] = Inr ik" and
    s': "s' = del ik (del labID s)"
    by blast
  from consistent_Lab_read [OF c r] ik have
    v: "map_of s labID = Some (marshalLab lab)" and
    d: "doc_Lab labID (marshalLab lab) = Some [ik]"
    by auto
  have m: "map_of s' x = (if x = labID \<or> x \<in> set [ik] then None else map_of s x)" for x
    by (simp add: s' map_of_del)
  from consistent_delete [OF wellFormed_Lab c v d m] show ?thesis .
qed

lemma CreateLab_preserves:
  assumes c: "consistent doc_Lab s"
    and e: "CreateLab ctx s labID classID name content img startTime endTime owner = (None, s')"
  shows "consistent doc_Lab s'"
proof -
  let ?lab = "\<lparr>Lab_DocType = ''lab'', Lab_ID = labID,
             Lab_ClassID = classID, Lab_Name = name, Lab_Content = content, Lab_Image = img,
             Lab_StartTime = startTime, Lab_EndTime = endTime, Lab_Owner = owner\<rparr>"
  from CreateLab_success [OF e] obtain ik where
    ik: "CreateCompositeKey index [classID, labID] = Inr ik" and
    fresh: "map_of s labID = None" and
    s': "s' = put ik marker (put labID (marshalLab ?lab) s)"
    by blast
  have d: "doc_Lab labID (marshalLab ?lab) = Some [ik]"
    using ik by (simp add: doc_Lab_Some marshal_inject)
  have m: "map_of s' x = (if x \<in> set [ik] then Some marker
      else if x = labID then Some (marshalLab ?lab) else map_of s x)" for x
    by (simp add: s' map_of_put)
  from consistent_create [OF wellFormed_Lab c fresh d m] show ?thesis .
qed

lemma updateLabWith_preserves:
  assumes c: "consistent doc_Lab s" and e: "updateLabWith assign ctx s labID clientID = (None, s')"
    and keep: "\<And>lab. Lab_ID (assign lab) = Lab_ID lab \<and> Lab_ClassID (assign lab) = Lab_ClassID lab"
  shows "consistent doc_Lab s'"
proof -
  from e obtain lab where r: "ReadLab ctx s labID = Inr lab" and
    s': "s' = put labID (marshalLab (assign lab)) s"
    by (auto simp: updateLabWith_def PutState_def split: sum.splits if_splits)
  from consistent_Lab_read [OF c r] obtain ik where
    v: "map_of s labID = Some (marshalLab lab)" and i: "Lab_ID lab = labID" and
    ik: "CreateCompositeKey index [Lab_ClassID lab, Lab_ID lab] = Inr ik" and
    d: "doc_Lab labID (marshalLab lab) = Some [ik]"
    by blast
  have d': "doc_Lab labID (marshalLab (assign lab)) = Some [ik]"
    using ik i keep [of lab] by (simp add: doc_Lab_Some marshal_inject)
  have m: "map_of s' x = (if x = labID then Some (marshalLab (assign lab)) else map_of s x)" for x
    by (simp add: s' map_of_put)
  from consistent_update [OF wellFormed_Lab c v d d' m] show ?thesis .
qed

lemma UpdateLab_preserves:
  assumes "consistent doc_Lab s"
  shows "UpdateLabContent ctx s labID newContent clientID = (None, s') \<Longrightarrow> consistent doc_Lab s'"
    and "UpdateLabImage ctx s labID newImage clientID = (None, s') \<Longrightarrow> consistent doc_Lab s'"
    and "UpdateLabEndtime ctx s labID newTime clientID = (None, s') \<Longrightarrow> consistent doc_Lab s'"
    and "UpdateLab ctx s labID newImage newName newContent newStartTime newEndTime clientID
           = (None, s') \<Longrightarrow> consistent doc_Lab s'"
  unfolding UpdateLabContent_def UpdateLabImage_def UpdateLabEndtime_def UpdateLab_def
  by (erule updateLabWith_preserves [OF assms], simp)+

lemma DeleteInstance_success:
  assumes "DeleteInstance ctx s instanceID clientID = (None, s')"
  shows "\<exists>r k1 k2 k3. ReadInstance ctx s instanceID = Inr r \<and>
           CreateCompositeKey index1 [Instance_LabID r, Instance_ID r] = Inr k1 \<and>
           CreateCompositeKey index2 [Instance_ClassID r, Instance_ID r] = Inr k2 \<and>
           CreateCompositeKey index3 [Instance_Owner r, Instance_ID r] = Inr k3 \<and>
           s' = del k3 (del k2 (del k1 (del instanceID s)))"
  using assms
  by (auto simp: DeleteInstance_def DelState_def split: sum.splits if_splits)

lemma DeleteInstance_preserves:
  assumes c: "consistent doc_Instance s" and e: "DeleteInstance ctx s instanceID clientID = (None, s')"
  shows "consistent doc_Instance s'"
proof -
  from DeleteInstance_success [OF e] obtain r k1 k2 k3 where
    r: "ReadInstance ctx s instanceID = Inr r" and
    k: "CreateCompositeKey index1 [Instance_LabID r, Instance_ID r] = Inr k1"
       "CreateCompositeKey index2 [Instance_ClassID r, Instance_ID r] = Inr k2"
       "CreateCompositeKey index3 [Instance_Owner r, Instance_ID r] = Inr k3" and
    s': "s' = del k3 (del k2 (del k1 (del instanceID s)))"
    by blast
  from consistent_Instance_read [OF c r] k have
    v: "map_of s instanceID = Some (marshalInstance r)" and
    d: "doc_Instance instanceID (marshalInstance r) = Some [k1, k2, k3]"
    by auto
  have m: "map_of s' x = (if x = instanceID \<or> x \<in> set [k1, k2, k3] then None else map_of s x)" for x
    by (simp add: s' map_of_del)
  from consistent_delete [OF wellFormed_Instance c v d m] show ?thesis .
qed

lemma CreateInstance_preserves:
  assumes c: "consistent doc_Instance s"
    and e: "CreateInstance ctx s instanceID labID classID config owner = (None, s')"
    and np: "\<And>k2. CreateCompositeKey index2 [classID, instanceID] = Inr k2 \<Longrightarrow> \<not> putFails ctx k2"
  shows "consistent doc_Instance s'"
proof -
  let ?r = "\<lparr>Instance_DocType = ''instance'', Instance_ID = instanceID, Instance_ClassID = classID,
      Instance_LabID = labID, Instance_Config = config, Instance_Owner = owner\<rparr>"
  from CreateInstance_success [OF e] np obtain k1 k2 k3 where
    k: "CreateCompositeKey index1 [labID, instanceID] = Inr k1"
       "CreateCompositeKey index2 [classID, instanceID] = Inr k2"
       "CreateCompositeKey index3 [owner, instanceID] = Inr k3" and
    fresh: "map_of s instanceID = None" and
    s': "s' = put k3 marker (put k2 marker (put k1 marker (put instanceID (marshalInstance ?r) s)))"
    by (auto simp: Let_def split: if_splits)
  have d: "doc_Instance instanceID (marshalInstance ?r) = Some [k1, k2, k3]"
    using k by (simp add: doc_Instance_Some marshal_inject)
  have m: "map_of s' x = (if x \<in> set [k1, k2, k3] then Some marker
      else if x = instanceID then Some (marshalInstance ?r) else map_of s x)" for x
    by (simp add: s' map_of_put)
  from consistent_create [OF wellFormed_Instance c fresh d m] show ?thesis .
qed

lemma DeleteSubmission_success:
  assumes "DeleteSubmission ctx s submissionID = (None, s')"
  shows "\<exists>r k1 k2 k3. ReadSubmission ctx s submissionID = Inr r \<and>
           CreateCompositeKey index1 [Submission_LabID r, Submission_ID r] = Inr k1 \<and>
           CreateCompositeKey index2 [Submission_ClassID r, Submission_ID r] = Inr k2 \<and>
           CreateCompositeKey index3 [Submission_Owner r, Submission_ID r] = Inr k3 \<and>
           s' = del k3 (del k2 (del k1 (del submissionID s)))"
  using assms
  by (auto simp: DeleteSubmission_def DelState_def split: sum.splits if_splits)

lemma DeleteSubmission_preserves:
  assumes c: "consistent doc_Submission s" and e: "DeleteSubmission ctx s submissionID = (None, s')"
  shows "consistent doc_Submission s'"
proof -
  from DeleteSubmission_success [OF e] obtain r k1 k2 k3 where
    r: "ReadSubmission ctx s submissionID = Inr r" and
    k: "CreateCompositeKey index1 [Submission_LabID r, Submission_ID r] = Inr k1"
       "CreateCompositeKey index2 [Submission_ClassID r, Submission_ID r] = Inr k2"
       "CreateCompositeKey index3 [Submission_Owner r, Submission_ID r] = Inr k3" and
    s': "s' = del k3 (del k2 (del k1 (del submissionID s)))"
    by blast
  from consistent_Submission_read [OF c r] k have
    v: "map_of s submissionID = Some (marshalSubmission r)" and
    d: "doc_Submission submissionID (marshalSubmission r) = Some [k1, k2, k3]"
    by auto
  have m: "map_of s' x = (if x = submissionID \<or> x \<in> set [k1, k2, k3] then None else map_of s x)" for x
    by (simp add: s' map_of_del)
  from consistent_delete [OF wellFormed_Submission c v d m] show ?thesis .
qed

lemma CreateSubmission_preserves:
  assumes c: "consistent doc_Submission s"
    and e: "CreateSubmission ctx s submissionID labID classID content owner = (None, s')"
    and np: "\<And>k2. CreateCompositeKey index2 [classID, submissionID] = Inr k2 \<Longrightarrow> \<not> putFails ctx k2"
  shows "consistent doc_Submission s'"
proof -
  let ?r = "\<lparr>Submission_DocType = ''submission'', Submission_ID = submissionID, Submission_ClassID = classID,
      Submission_LabID = labID, Submission_Content = content, Submission_Owner = owner, Submission_Score = 0\<rparr>"
  from CreateSubmission_success [OF e] np obtain k1 k2 k3 where
    k: "CreateCompositeKey index1 [labID, submissionID] = Inr k1"
       "CreateCompositeKey index2 [classID, submissionID] = Inr k2"
       "CreateCompositeKey index3 [owner, submissionID] = Inr k3" and
    fresh: "map_of s submissionID = None" and
    s': "s' = put k3 marker (put k2 marker (put k1 marker (put submissionID (marshalSubmission ?r) s)))"
    by (auto simp: Let_def split: if_splits)
  have d: "doc_Submission submissionID (marshalSubmission ?r) = Some [k1, k2, k3]"
    using k by (simp add: doc_Submission_Some marshal_inject)
  have m: "map_of s' x = (if x \<in> set [k1, k2, k3] then Some marker
      else if x = submissionID then Some (marshalSubmission ?r) else map_of s x)" for x
    by (simp add: s' map_of_put)
  from consistent_create [OF wellFormed_Submission c fresh d m] show ?thesis .
qed

lemma UpdateSubmissionScore_preserves:
  assumes c: "consistent doc_Submission s"
    and e: "UpdateSubmissionScore ctx s submissionID newScore = (None, s')"
  shows "consistent doc_Submission s'"
proof -
  from e obtain r where r: "ReadSubmission ctx s submissionID = Inr r" and
    s': "s' = put submissionID (marshalSubmission (r\<lparr>Submission_Score := newScore\<rparr>)) s"
    by (auto simp: UpdateSubmissionScore_def PutState_def split: sum.splits if_splits)
  from consistent_Submission_read [OF c r] obtain k1 k2 k3 where
    v: "map_of s submissionID = Some (marshalSubmission r)" and i: "Submission_ID r = submissionID" and
    k: "CreateCompositeKey index1 [Submission_LabID r, Submission_ID r] = Inr k1"
       "CreateCompositeKey index2 [Submission_ClassID r, Submission_ID r] = Inr k2"
       "CreateCompositeKey index3 [Submission_Owner r, Submission_ID r] = Inr k3" and
    d: "doc_Submission submissionID (marshalSubmission r) = Some [k1, k2, k3]"
    by blast
  have d': "doc_Submission submissionID (marshalSubmission (r\<lparr>Submission_Score := newScore\<rparr>))
      = Some [k1, k2, k3]"
    using k i by (simp add: doc_Submission_Some marshal_inject)
  have m: "map_of s' x = (if x = submissionID
      then Some (marshalSubmission (r\<lparr>Submission_Score := newScore\<rparr>)) else map_of s x)" for x
    by (simp add: s' map_of_put)
  from consistent_update [OF wellFormed_Submission c v d d' m] show ?thesis .
qed

lemma consistent_concrete:
  "consistent doc_Lab ledgerLab1" "consistent doc_Instance ledgerInstance1"
  "consistent doc_Submission ledgerSubmission1"
  using CreateLab_preserves [OF consistent_empty ledgerLab1_created]
    CreateInstance_preserves [OF consistent_empty ledgerInstance1_created]
    CreateSubmission_preserves [OF consistent_empty ledgerSubmission1_created]
  by (simp_all add: ctx_defs)

lemma read_concrete_Tom:
  "ReadClass ctxTom ledgerClass1 ''class1'' = Inr class1"
  "ReadLab ctxTom ledgerLab1 ''lab1'' = Inr lab1"
  "ReadInstance ctxTom ledgerInstance1 ''instance1'' = Inr instance1"
  "ReadSubmission ctxTom ledgerSubmission1 ''submission1'' = Inr submission1"
  by (simp_all add: ReadClass_def ReadLab_def ReadInstance_def ReadSubmission_def ctx_stub
      ledgerClass1_def ledgerLab1_def ledgerInstance1_def ledgerSubmission1_def
      unmarshalClass_marshalClass unmarshalLab_marshalLab unmarshalInstance_marshalInstance
      unmarshalSubmission_marshalSubmission)


section \<open>Ownership checks (C1)\<close>

lemma stub_identity_independent:
  "GetState (c\<lparr>GetID := g, attributes := a\<rparr>) = GetState c"
  "PutState (c\<lparr>GetID := g, attributes := a\<rparr>) = PutState c"
  "DelState (c\<lparr>GetID := g, attributes := a\<rparr>) = DelState c"
  by (simp_all add: fun_eq_iff stub_defs)

lemma Class_nonowner:
  assumes "ReadClass c s ident = Inr cls" and "GetSubmittingClientIdentity c = Inr clientID"
    and "clientID \<noteq> Class_Owner cls"
  shows "UpdateClass c s ident newName newContent = (Some Unauthorized, s)"
    and "DeleteClass c s ident = (Some Unauthorized, s)"
    and "TransferClass c s ident newOwner = (Some Unauthorized, s)"
  using assms by (simp_all add: UpdateClass_def DeleteClass_def TransferClass_def)

lemma Lab_nonowner:
  assumes "ReadLab c s ident = Inr lab" and "clientID \<noteq> Lab_Owner lab"
  shows "DeleteLab c s ident clientID = (Some Unauthorized, s)"
    and "updateLabWith f c s ident clientID = (Some Unauthorized, s)"
  using assms by (simp_all add: DeleteLab_def updateLabWith_def)

lemma Instance_nonowner:
  assumes "ReadInstance c s ident = Inr inst" and "clientID \<noteq> Instance_Owner inst"
  shows "DeleteInstance c s ident clientID = (Some Unauthorized, s)"
  using assms by (simp add: DeleteInstance_def)

lemma Submission_no_identity:
  "DeleteSubmission (c\<lparr>GetID := g, attributes := a\<rparr>) s ident = DeleteSubmission c s ident"
  "UpdateSubmissionScore (c\<lparr>GetID := g, attributes := a\<rparr>) s ident newScore
     = UpdateSubmissionScore c s ident newScore"
  by (simp_all add: DeleteSubmission_def UpdateSubmissionScore_def ReadSubmission_def
      stub_identity_independent cong: sum.case_cong)

text \<open>
  C1 (as amended). For the Class, Lab and Instance kinds, every mutating operation other
  than Create, invoked on a record that reads successfully by a caller whose identity
  differs from the record's owner, returns \<open>Unauthorized\<close> and leaves the world state
  unchanged. The Delete and score-update operations of the Submission kind take no caller
  identity and compare no owner: their outcome does not depend on who calls.
\<close>

theorem nonowner_unauthorized:
  "(ReadClass c s ident = Inr cls \<and> GetSubmittingClientIdentity c = Inr clientID \<and>
      clientID \<noteq> Class_Owner cls \<longrightarrow>
        UpdateClass c s ident newName newContent = (Some Unauthorized, s) \<and>
        DeleteClass c s ident = (Some Unauthorized, s) \<and>
        TransferClass c s ident newOwner = (Some Unauthorized, s)) \<and>
   (ReadLab c s ident = Inr lab \<and> clientID \<noteq> Lab_Owner lab \<longrightarrow>
        DeleteLab c s ident clientID = (Some Unauthorized, s) \<and>
        UpdateLabContent c s ident newContent clientID = (Some Unauthorized, s) \<and>
        UpdateLabImage c s ident newImage clientID = (Some Unauthorized, s) \<and>
        UpdateLabEndtime c s ident newTime clientID = (Some Unauthorized, s) \<and>
        UpdateLab c s ident newImage newName newContent newStartTime newEndTime clientID
          = (Some Unauthorized, s)) \<and>
   (ReadInstance c s ident = Inr inst \<and> clientID \<noteq> Instance_Owner inst \<longrightarrow>
        DeleteInstance c s ident clientID = (Some Unauthorized, s)) \<and>
   DeleteSubmission (c\<lparr>GetID := g, attributes := a\<rparr>) s ident = DeleteSubmission c s ident \<and>
   UpdateSubmissionScore (c\<lparr>GetID := g, attributes := a\<rparr>) s ident newScore
     = UpdateSubmissionScore c s ident newScore"
  using Class_nonowner [of c s ident cls clientID] Lab_nonowner [of c s ident lab clientID]
    Instance_nonowner [of c s ident inst clientID]
  by (simp add: UpdateLabContent_def UpdateLabImage_def UpdateLabEndtime_def UpdateLab_def
      Submission_no_identity)

text \<open>
  The theorem at Sam's calls on the class, the lab and the instance that Tom owns.
\<close>

theorem nonowner_unauthorized_witness:
  "ReadClass ctxSam ledgerClass1 ''class1'' = Inr class1 \<and>
   GetSubmittingClientIdentity ctxSam = Inr ''Sam'' \<and> ''Sam'' \<noteq> Class_Owner class1 \<and>
   UpdateClass ctxSam ledgerClass1 ''class1'' ''x'' ''y'' = (Some Unauthorized, ledgerClass1) \<and>
   DeleteClass ctxSam ledgerClass1 ''class1'' = (Some Unauthorized, ledgerClass1) \<and>
   TransferClass ctxSam ledgerClass1 ''class1'' ''Sam'' = (Some Unauthorized, ledgerClass1) \<and>
   ReadLab ctxSam ledgerLab1 ''lab1'' = Inr lab1 \<and> ''Sam'' \<noteq> Lab_Owner lab1 \<and>
   DeleteLab ctxSam ledgerLab1 ''lab1'' ''Sam'' = (Some Unauthorized, ledgerLab1) \<and>
   UpdateLab ctxSam ledgerLab1 ''lab1'' ''i'' ''n'' ''c'' ''s'' ''e'' ''Sam''
     = (Some Unauthorized, ledgerLab1) \<and>
   ReadInstance ctxSam ledgerInstance1 ''instance1'' = Inr instance1 \<and>
   ''Sam'' \<noteq> Instance_Owner instance1 \<and>
   DeleteInstance ctxSam ledgerInstance1 ''instance1'' ''Sam'' = (Some Unauthorized, ledgerInstance1)"
proof -
  have idn: "GetSubmittingClientIdentity ctxSam = Inr ''Sam''"
    by (simp add: GetSubmittingClientIdentity_def DecodeString_def ctx_defs)
  have ne: "''Sam'' \<noteq> Class_Owner class1" "''Sam'' \<noteq> Lab_Owner lab1"
    "''Sam'' \<noteq> Instance_Owner instance1"
    by (simp_all add: class1_def lab1_def instance1_def)
  have 1: "UpdateClass ctxSam ledgerClass1 ''class1'' ''x'' ''y'' = (Some Unauthorized, ledgerClass1) \<and>
   DeleteClass ctxSam ledgerClass1 ''class1'' = (Some Unauthorized, ledgerClass1) \<and>
   TransferClass ctxSam ledgerClass1 ''class1'' ''Sam'' = (Some Unauthorized, ledgerClass1)"
    using nonowner_unauthorized [of ctxSam ledgerClass1 "''class1''" class1 "''Sam''" "''x''" "''y''" "''Sam''"]
      read_concrete(1) idn ne(1) by blast
  have 2: "DeleteLab ctxSam ledgerLab1 ''lab1'' ''Sam'' = (Some Unauthorized, ledgerLab1) \<and>
   UpdateLab ctxSam ledgerLab1 ''lab1'' ''i'' ''n'' ''c'' ''s'' ''e'' ''Sam''
     = (Some Unauthorized, ledgerLab1)"
    using nonowner_unauthorized [where c = ctxSam and s = ledgerLab1 and ident = "''lab1''"
        and lab = lab1 and clientID = "''Sam''" and newImage = "''i''" and newName = "''n''"
        and newContent = "''c''" and newStartTime = "''s''" and newEndTime = "''e''"]
      read_concrete(2) ne(2) by blast
  have 3: "DeleteInstance ctxSam ledgerInstance1 ''instance1'' ''Sam'' = (Some Unauthorized, ledgerInstance1)"
    using nonowner_unauthorized [where c = ctxSam and s = ledgerInstance1 and ident = "''instance1''"
        and inst = instance1 and clientID = "''Sam''"]
      read_concrete(3) ne(3) by blast
  from 1 2 3 idn ne read_concrete show ?thesis by simp
qed

text \<open>
  C1 as stated fails for the Submission kind: Sam deletes Tom's submission and sets its
  score; both calls report success and write to the world state.
\<close>

theorem Submission_nonowner_counterexample:
  "ReadSubmission ctxSam ledgerSubmission1 ''submission1'' = Inr submission1 \<and>
   Submission_Owner submission1 = ''Tom'' \<and> GetID ctxSam = Inr (Base64 ''Sam'') \<and>
   DeleteSubmission ctxSam ledgerSubmission1 ''submission1'' = (None, []) \<and>
   DeleteSubmission ctxSam ledgerSubmission1 ''submission1''
     \<noteq> (Some Unauthorized, ledgerSubmission1) \<and>
   fst (UpdateSubmissionScore ctxSam ledgerSubmission1 ''submission1'' 100) = None \<and>
   map_of (snd (UpdateSubmissionScore ctxSam ledgerSubmission1 ''submission1'' 100)) ''submission1''
     = Some (marshalSubmission (submission1\<lparr>Submission_Score := 100\<rparr>)) \<and>
   UpdateSubmissionScore ctxSam ledgerSubmission1 ''submission1'' 100
     \<noteq> (Some Unauthorized, ledgerSubmission1)"
proof -
  have d: "DeleteSubmission ctxSam ledgerSubmission1 ''submission1'' = (None, [])"
    unfolding DeleteSubmission_def read_concrete
    by (simp add: ctx_stub key_defs submission1_def ledgerSubmission1_def del_def)
  have u: "UpdateSubmissionScore ctxSam ledgerSubmission1 ''submission1'' 100
      = (None, put ''submission1'' (marshalSubmission (submission1\<lparr>Submission_Score := 100\<rparr>))
                 ledgerSubmission1)"
    unfolding UpdateSubmissionScore_def read_concrete by (simp add: ctx_stub)
  have g: "GetID ctxSam = Inr (Base64 ''Sam'')"
    by (simp add: ctx_defs)
  have o: "Submission_Owner submission1 = ''Tom''"
    by (simp add: submission1_def)
  from d u g o read_concrete(4) show ?thesis
    by (simp add: map_of_put)
qed

section \<open>Index writes of the create operations (C3, C2)\<close>

text \<open>
  C3, at the failing input. The store refuses the write of the \<^verbatim>\<open>classID~name\<close> index
  entry of \<open>instance1\<close>; \<open>CreateInstance\<close> and \<open>CreateSubmission\<close> nevertheless report
  success (\<^verbatim>\<open>return nil\<close> where the first and the third index write have
  \<^verbatim>\<open>return err\<close>).
\<close>

theorem Create_reports_success_after_failed_index_write:
  "PutState ctxIndex2Fails
     [(CHR 0x00 # ''labID~name'' @ CHR 0x00 # ''lab1'' @ CHR 0x00 # ''instance1'' @ [CHR 0x00], marker),
      (''instance1'', marshalInstance instance1)]
     (CHR 0x00 # ''classID~name'' @ CHR 0x00 # ''class1'' @ CHR 0x00 # ''instance1'' @ [CHR 0x00]) marker
     = Inl StoreUnavailable \<and>
   fst (CreateInstance ctxIndex2Fails [] ''instance1'' ''lab1'' ''class1'' ''test'' ''Tom'') = None \<and>
   fst (CreateSubmission ctxIndex2Fails [] ''submission1'' ''lab1'' ''class1'' ''test'' ''Tom'') = None"
proof -
  have "putFails ctxIndex2Fails
     (CHR 0x00 # ''classID~name'' @ CHR 0x00 # ''class1'' @ CHR 0x00 # ''instance1'' @ [CHR 0x00])"
    by (simp add: ctxIndex2Fails_def)
  then show ?thesis
    by (simp add: CreateInstance_index2_fails CreateSubmission_index2_fails PutState_def)
qed

text \<open>
  C2, at the same failing input. After the call that reported success the primary entry
  of \<open>instance1\<close> exists, and neither its \<^verbatim>\<open>classID~name\<close> entry nor its
  \<^verbatim>\<open>owner~name\<close> entry does: the third index write is never attempted.
\<close>

theorem index_entries_missing_after_Create:
  "fst (CreateInstance ctxIndex2Fails [] ''instance1'' ''lab1'' ''class1'' ''test'' ''Tom'') = None \<and>
   map_of (snd (CreateInstance ctxIndex2Fails [] ''instance1'' ''lab1'' ''class1'' ''test'' ''Tom''))
     ''instance1'' = Some (marshalInstance instance1) \<and>
   CreateCompositeKey index2 [Instance_ClassID instance1, Instance_ID instance1]
     = Inr (CHR 0x00 # ''classID~name'' @ CHR 0x00 # ''class1'' @ CHR 0x00 # ''instance1'' @ [CHR 0x00]) \<and>
   map_of (snd (CreateInstance ctxIndex2Fails [] ''instance1'' ''lab1'' ''class1'' ''test'' ''Tom''))
     (CHR 0x00 # ''classID~name'' @ CHR 0x00 # ''class1'' @ CHR 0x00 # ''instance1'' @ [CHR 0x00]) = None \<and>
   CreateCompositeKey index3 [Instance_Owner instance1, Instance_ID instance1]
     = Inr (CHR 0x00 # ''owner~name'' @ CHR 0x00 # ''Tom'' @ CHR 0x00 # ''instance1'' @ [CHR 0x00]) \<and>
   map_of (snd (CreateInstance ctxIndex2Fails [] ''instance1'' ''lab1'' ''class1'' ''test'' ''Tom''))
     (CHR 0x00 # ''owner~name'' @ CHR 0x00 # ''Tom'' @ CHR 0x00 # ''instance1'' @ [CHR 0x00]) = None"
  by (simp add: CreateInstance_index2_fails keys_instance1)

section \<open>Creating twice (C4)\<close>



section \<open>Range scans over values that do not parse (C6)\<close>

text \<open>
  C6 (as amended). A range scan (\<open>GetLabsByRange\<close>, \<open>ReadLabs\<close>, \<open>GetInstanceByRange\<close>,
  \<open>GetSubmissionByRange\<close>, \<open>GetAllClassses\<close>) returns records exactly when every entry
  of the range parses as the target record type, and then one record per entry, in key
  order; when the value of some entry of the range does not parse, the whole scan fails
  with the error of \<^verbatim>\<open>json.Unmarshal\<close> and returns no record.
\<close>

theorem range_scan_fails_on_unparsable_entry:
  "(GetStateByRange c s startKey endKey = Inr it \<longrightarrow>
      (GetLabsByRange c s startKey endKey = Inr labs \<longleftrightarrow> list_all2 (parses unmarshalLab) it labs) \<and>
      ((\<exists>k v e. Inr (k, v) \<in> set it \<and> unmarshalLab v = Inl e) \<longrightarrow>
         GetLabsByRange c s startKey endKey = Inl UnmarshalError) \<and>
      (GetInstanceByRange c s startKey endKey = Inr instances
         \<longleftrightarrow> list_all2 (parses unmarshalInstance) it instances) \<and>
      ((\<exists>k v e. Inr (k, v) \<in> set it \<and> unmarshalInstance v = Inl e) \<longrightarrow>
         GetInstanceByRange c s startKey endKey = Inl UnmarshalError) \<and>
      (GetSubmissionByRange c s startKey endKey = Inr submissions
         \<longleftrightarrow> list_all2 (parses unmarshalSubmission) it submissions) \<and>
      ((\<exists>k v e. Inr (k, v) \<in> set it \<and> unmarshalSubmission v = Inl e) \<longrightarrow>
         GetSubmissionByRange c s startKey endKey = Inl UnmarshalError)) \<and>
   (GetStateByRange c s [] [] = Inr it \<longrightarrow>
      (ReadLabs c s = Inr labs \<longleftrightarrow> list_all2 (parses unmarshalLab) it labs) \<and>
      ((\<exists>k v e. Inr (k, v) \<in> set it \<and> unmarshalLab v = Inl e) \<longrightarrow>
         ReadLabs c s = Inl UnmarshalError) \<and>
      (GetAllClassses c s = Inr classes \<longleftrightarrow> list_all2 (parses unmarshalClass) it classes) \<and>
      ((\<exists>k v e. Inr (k, v) \<in> set it \<and> unmarshalClass v = Inl e) \<longrightarrow>
         GetAllClassses c s = Inl UnmarshalError))"
proof (rule conjI; rule impI)
  assume r: "GetStateByRange c s startKey endKey = Inr it"
  from range_scan [OF r unmarshal_error(1), where rs = labs] r
  show "(GetLabsByRange c s startKey endKey = Inr labs \<longleftrightarrow> list_all2 (parses unmarshalLab) it labs) \<and>
      ((\<exists>k v e. Inr (k, v) \<in> set it \<and> unmarshalLab v = Inl e) \<longrightarrow>
         GetLabsByRange c s startKey endKey = Inl UnmarshalError) \<and>
      (GetInstanceByRange c s startKey endKey = Inr instances
         \<longleftrightarrow> list_all2 (parses unmarshalInstance) it instances) \<and>
      ((\<exists>k v e. Inr (k, v) \<in> set it \<and> unmarshalInstance v = Inl e) \<longrightarrow>
         GetInstanceByRange c s startKey endKey = Inl UnmarshalError) \<and>
      (GetSubmissionByRange c s startKey endKey = Inr submissions
         \<longleftrightarrow> list_all2 (parses unmarshalSubmission) it submissions) \<and>
      ((\<exists>k v e. Inr (k, v) \<in> set it \<and> unmarshalSubmission v = Inl e) \<longrightarrow>
         GetSubmissionByRange c s startKey endKey = Inl UnmarshalError)"
    using range_scan [OF r unmarshal_error(2), where rs = instances]
      range_scan [OF r unmarshal_error(3), where rs = submissions]
    by (simp add: GetLabsByRange_def GetInstanceByRange_def GetSubmissionByRange_def
        constructQueryResponseFromIterator_def constructQueryResponseFromIterator_Instance_def
        constructQueryResponseFromIterator_Submission_def loops_decodeAll)
next
  assume r: "GetStateByRange c s [] [] = Inr it"
  from range_scan [OF r unmarshal_error(1), where rs = labs] range_scan [OF r unmarshal_error(4), where rs = classes] r
  show "(ReadLabs c s = Inr labs \<longleftrightarrow> list_all2 (parses unmarshalLab) it labs) \<and>
      ((\<exists>k v e. Inr (k, v) \<in> set it \<and> unmarshalLab v = Inl e) \<longrightarrow>
         ReadLabs c s = Inl UnmarshalError) \<and>
      (GetAllClassses c s = Inr classes \<longleftrightarrow> list_all2 (parses unmarshalClass) it classes) \<and>
      ((\<exists>k v e. Inr (k, v) \<in> set it \<and> unmarshalClass v = Inl e) \<longrightarrow>
         GetAllClassses c s = Inl UnmarshalError)"
    by (simp add: ReadLabs_def GetAllClassses_def loops_decodeAll)
qed

text \<open>
  The theorem at the world state that holds \<open>lab1\<close> alone, where the scan returns it, and
  at the world state that also holds an unparsable \<open>lab0\<close>, where the scan fails.
\<close>

theorem range_scan_fails_on_unparsable_entry_witness:
  "GetStateByRange ctxTom ledgerLab1 [] [] = Inr [Inr (''lab1'', marshalLab lab1)] \<and>
   list_all2 (parses unmarshalLab) [Inr (''lab1'', marshalLab lab1)] [lab1] \<and>
   GetLabsByRange ctxTom ledgerLab1 [] [] = Inr [lab1] \<and>
   ReadLabs ctxTom ledgerLab1 = Inr [lab1] \<and>
   GetStateByRange ctxTom ledgerUnparsable [] []
     = Inr [Inr (''lab0'', noteDoc), Inr (''lab1'', marshalLab lab1)] \<and>
   (\<exists>k v e. Inr (k, v) \<in> set [Inr (''lab0'', noteDoc), Inr (''lab1'', marshalLab lab1)] \<and>
      unmarshalLab v = Inl e) \<and>
   ReadLabs ctxTom ledgerUnparsable = Inl UnmarshalError"
proof -
  have r1: "GetStateByRange ctxTom ledgerLab1 [] [] = Inr [Inr (''lab1'', marshalLab lab1)]"
    by (simp add: range_ctxTom ledgerLab1_def)
  have p1: "list_all2 (parses unmarshalLab) [Inr (''lab1'', marshalLab lab1)] [lab1]"
    by (simp add: parses_def unmarshalLab_marshalLab)
  have p2: "\<exists>k v e. Inr (k, v) \<in> set [Inr (''lab0'', noteDoc), Inr (''lab1'', marshalLab lab1)] \<and>
      unmarshalLab v = Inl e"
  proof -
    have "unmarshalLab noteDoc = Inl UnmarshalError"
      by (simp add: unmarshalLab_def noteDoc_def)
    then have "Inr (''lab0'', noteDoc) \<in> set [Inr (''lab0'', noteDoc), Inr (''lab1'', marshalLab lab1)]
        \<and> unmarshalLab noteDoc = Inl UnmarshalError"
      by simp
    then show ?thesis by (intro exI)
  qed
  note t1 = range_scan_fails_on_unparsable_entry
    [where c = ctxTom and s = ledgerLab1 and startKey = "[]" and endKey = "[]"
       and it = "[Inr (''lab1'', marshalLab lab1)]" and labs = "[lab1]"]
  have a: "GetLabsByRange ctxTom ledgerLab1 [] [] = Inr [lab1]"
    using t1 r1 p1 by simp
  have a': "ReadLabs ctxTom ledgerLab1 = Inr [lab1]"
    using t1 r1 p1 by simp
  note t2 = range_scan_fails_on_unparsable_entry
    [where c = ctxTom and s = ledgerUnparsable and startKey = "[]" and endKey = "[]"
       and it = "[Inr (''lab0'', noteDoc), Inr (''lab1'', marshalLab lab1)]"]
  have b: "ReadLabs ctxTom ledgerUnparsable = Inl UnmarshalError"
    using t2 range_ledgerUnparsable p2 by simp
  from r1 p1 range_ledgerUnparsable p2 a a' b show ?thesis by simp
qed

text \<open>
  C6 as stated fails: the scan over \<open>lab0\<close> (unparsable) and \<open>lab1\<close> (a lab) does not
  skip \<open>lab0\<close> and return \<open>lab1\<close>; it returns the error.
\<close>

theorem range_scan_counterexample:
  "GetStateByRange ctxTom ledgerUnparsable [] []
     = Inr [Inr (''lab0'', noteDoc), Inr (''lab1'', marshalLab lab1)] \<and>
   unmarshalLab noteDoc = Inl UnmarshalError \<and>
   unmarshalLab (marshalLab lab1) = Inr lab1 \<and>
   GetLabsByRange ctxTom ledgerUnparsable [] [] = Inl UnmarshalError \<and>
   GetLabsByRange ctxTom ledgerUnparsable [] [] \<noteq> Inr [lab1]"
proof -
  have u: "unmarshalLab noteDoc = Inl UnmarshalError"
    by (simp add: unmarshalLab_def noteDoc_def)
  have g: "GetLabsByRange ctxTom ledgerUnparsable [] [] = Inl UnmarshalError"
    unfolding GetLabsByRange_def range_ledgerUnparsable by (simp add: constructQueryResponseFromIterator_def u)
  from u range_ledgerUnparsable g show ?thesis by (simp add: unmarshalLab_marshalLab)
qed

section \<open>Paginated queries (C7, C8)\<close>

text \<open>
  C7 (as amended). The paginated query and the paginated range scan do not examine the
  page size: whatever it is (also zero or negative), its low 32 bits are passed to the
  store, and the operation succeeds with the store's entries when the store answers and
  every entry parses. The operation fails only with the error of the store call, of an
  iterator step, or of \<^verbatim>\<open>json.Unmarshal\<close>; it has no invalid-argument error of its own.
\<close>

theorem page_size_forwarded_unchecked:
  "(GetQueryResultWithPagination c s queryString (ucast pageSize) bookmark = Inr (it, md) \<and>
      list_all2 (parses unmarshalLab) it labs \<longrightarrow>
        QueryAssetsWithPagination c s queryString pageSize bookmark
          = Inr \<lparr>PQR_Labs = labs, PQR_FetchedRecordsCount = FetchedRecordsCount md,
                 PQR_Bookmark = Bookmark md\<rparr>) \<and>
   (GetStateByRangeWithPagination c s startKey endKey (ucast pageSize) bookmark = Inr (it, md) \<and>
      list_all2 (parses unmarshalLab) it labs \<longrightarrow>
        GetAssetsByRangeWithPagination c s startKey endKey pageSize bookmark = Inr labs) \<and>
   (QueryAssetsWithPagination c s queryString pageSize bookmark = Inl e \<longrightarrow>
      GetQueryResultWithPagination c s queryString (ucast pageSize) bookmark = Inl e \<or>
      (\<exists>it md. GetQueryResultWithPagination c s queryString (ucast pageSize) bookmark = Inr (it, md) \<and>
         (Inl e \<in> set it \<or> (\<exists>k v. Inr (k, v) \<in> set it \<and> unmarshalLab v = Inl e)))) \<and>
   (GetAssetsByRangeWithPagination c s startKey endKey pageSize bookmark = Inl e \<longrightarrow>
      GetStateByRangeWithPagination c s startKey endKey (ucast pageSize) bookmark = Inl e \<or>
      (\<exists>it md. GetStateByRangeWithPagination c s startKey endKey (ucast pageSize) bookmark = Inr (it, md) \<and>
         (Inl e \<in> set it \<or> (\<exists>k v. Inr (k, v) \<in> set it \<and> unmarshalLab v = Inl e))))"
proof (intro conjI impI)
  assume a: "GetQueryResultWithPagination c s queryString (ucast pageSize) bookmark = Inr (it, md) \<and>
      list_all2 (parses unmarshalLab) it labs"
  then have "decodeAll unmarshalLab it [] = Inr labs"
    by (simp add: decodeAll_Inr)
  with a show "QueryAssetsWithPagination c s queryString pageSize bookmark
          = Inr \<lparr>PQR_Labs = labs, PQR_FetchedRecordsCount = FetchedRecordsCount md,
                 PQR_Bookmark = Bookmark md\<rparr>"
    by (simp add: paged_query)
next
  assume a: "GetStateByRangeWithPagination c s startKey endKey (ucast pageSize) bookmark = Inr (it, md) \<and>
      list_all2 (parses unmarshalLab) it labs"
  then have "decodeAll unmarshalLab it [] = Inr labs"
    by (simp add: decodeAll_Inr)
  with a show "GetAssetsByRangeWithPagination c s startKey endKey pageSize bookmark = Inr labs"
    by (simp add: paged_range)
next
  assume a: "QueryAssetsWithPagination c s queryString pageSize bookmark = Inl e"
  show "GetQueryResultWithPagination c s queryString (ucast pageSize) bookmark = Inl e \<or>
      (\<exists>it md. GetQueryResultWithPagination c s queryString (ucast pageSize) bookmark = Inr (it, md) \<and>
         (Inl e \<in> set it \<or> (\<exists>k v. Inr (k, v) \<in> set it \<and> unmarshalLab v = Inl e)))"
  proof (cases "GetQueryResultWithPagination c s queryString (ucast pageSize) bookmark")
    case (Inl e')
    with a paged_store_error(1) [OF Inl] show ?thesis by simp
  next
    case (Inr p)
    obtain it' md' where p: "p = (it', md')" by (cases p)
    from a paged_query [OF Inr [unfolded p]] have "decodeAll unmarshalLab it' [] = Inl e"
      by (simp split: sum.splits)
    from decodeAll_Inl [OF this] Inr p show ?thesis by simp
  qed
next
  assume a: "GetAssetsByRangeWithPagination c s startKey endKey pageSize bookmark = Inl e"
  show "GetStateByRangeWithPagination c s startKey endKey (ucast pageSize) bookmark = Inl e \<or>
      (\<exists>it md. GetStateByRangeWithPagination c s startKey endKey (ucast pageSize) bookmark = Inr (it, md) \<and>
         (Inl e \<in> set it \<or> (\<exists>k v. Inr (k, v) \<in> set it \<and> unmarshalLab v = Inl e)))"
  proof (cases "GetStateByRangeWithPagination c s startKey endKey (ucast pageSize) bookmark")
    case (Inl e')
    with a paged_store_error(2) [OF Inl] show ?thesis by simp
  next
    case (Inr p)
    obtain it' md' where p: "p = (it', md')" by (cases p)
    from a paged_range [OF Inr [unfolded p]] have "decodeAll unmarshalLab it' [] = Inl e"
      by simp
    from decodeAll_Inl [OF this] Inr p show ?thesis by simp
  qed
qed

text \<open>The theorem at a page size of 2, against a store that answers with \<open>lab1\<close>.\<close>

theorem page_size_forwarded_unchecked_witness:
  "GetQueryResultWithPagination ctxPaged ledgerLab1 ''{}'' (ucast (2 :: 64 word)) []
     = Inr ([Inr (''lab1'', marshalLab lab1)], \<lparr>FetchedRecordsCount = 1, Bookmark = ''g1AAAA''\<rparr>) \<and>
   list_all2 (parses unmarshalLab) [Inr (''lab1'', marshalLab lab1)] [lab1] \<and>
   QueryAssetsWithPagination ctxPaged ledgerLab1 ''{}'' 2 []
     = Inr \<lparr>PQR_Labs = [lab1], PQR_FetchedRecordsCount = 1, PQR_Bookmark = ''g1AAAA''\<rparr> \<and>
   GetStateByRangeWithPagination ctxPaged ledgerLab1 [] [] (ucast (2 :: 64 word)) []
     = Inr ([Inr (''lab1'', marshalLab lab1)], \<lparr>FetchedRecordsCount = 1, Bookmark = ''g1AAAA''\<rparr>) \<and>
   GetAssetsByRangeWithPagination ctxPaged ledgerLab1 [] [] 2 [] = Inr [lab1]"
proof -
  note t = page_size_forwarded_unchecked [where c = ctxPaged and s = ledgerLab1 and pageSize = 2
      and bookmark = "[]" and it = "[Inr (''lab1'', marshalLab lab1)]" and labs = "[lab1]"
      and md = "\<lparr>FetchedRecordsCount = 1, Bookmark = ''g1AAAA''\<rparr>"]
  have 1: "QueryAssetsWithPagination ctxPaged ledgerLab1 ''{}'' 2 []
     = Inr \<lparr>PQR_Labs = [lab1], PQR_FetchedRecordsCount = 1, PQR_Bookmark = ''g1AAAA''\<rparr>"
    using t [where queryString = "''{}''"] ctxPaged_calls(1) parses_lab1 by simp
  have 2: "GetAssetsByRangeWithPagination ctxPaged ledgerLab1 [] [] 2 [] = Inr [lab1]"
    using t [where startKey = "[]" and endKey = "[]"] ctxPaged_calls(2) parses_lab1 by simp
  from 1 2 ctxPaged_calls parses_lab1 show ?thesis by simp
qed

text \<open>
  C7 as stated fails: with the page sizes 0 and -1, against a store that answers them,
  both operations succeed.
\<close>

theorem page_size_counterexample:
  "sint (ucast (0 :: 64 word) :: 32 word) \<le> 0 \<and> sint (ucast (- 1 :: 64 word) :: 32 word) \<le> 0 \<and>
   QueryAssetsWithPagination ctxPaged ledgerLab1 ''{}'' 0 []
     = Inr \<lparr>PQR_Labs = [lab1], PQR_FetchedRecordsCount = 1, PQR_Bookmark = ''g1AAAA''\<rparr> \<and>
   QueryAssetsWithPagination ctxPaged ledgerLab1 ''{}'' (- 1) []
     = Inr \<lparr>PQR_Labs = [lab1], PQR_FetchedRecordsCount = 1, PQR_Bookmark = ''g1AAAA''\<rparr> \<and>
   GetAssetsByRangeWithPagination ctxPaged ledgerLab1 [] [] 0 [] = Inr [lab1] \<and>
   GetAssetsByRangeWithPagination ctxPaged ledgerLab1 [] [] (- 1) [] = Inr [lab1]"
proof -
  have d: "decodeAll unmarshalLab [Inr (''lab1'', marshalLab lab1)] [] = Inr [lab1]"
    by (simp add: unmarshalLab_marshalLab)
  have s: "sint (ucast (0 :: 64 word) :: 32 word) \<le> 0" "sint (ucast (- 1 :: 64 word) :: 32 word) \<le> 0"
    by code_simp+
  from d s show ?thesis
    by (simp add: paged_query [OF ctxPaged_calls(1)] paged_range [OF ctxPaged_calls(2)])
qed

text \<open>
  C8 (as amended). The paginated range scan returns the records of the page and nothing
  else: it is the decoding of the store's iterator, whatever fetched count and bookmark
  the store produced with it. The paginated predicate query returns, with the records,
  the fetched count and the bookmark of the store, unmodified.
\<close>

theorem paginated_range_scan_drops_metadata:
  "(GetStateByRangeWithPagination c s startKey endKey (ucast pageSize) bookmark = Inr (it, md) \<longrightarrow>
      GetAssetsByRangeWithPagination c s startKey endKey pageSize bookmark
        = constructQueryResponseFromIterator it \<and>
      (\<forall>labs. GetAssetsByRangeWithPagination c s startKey endKey pageSize bookmark = Inr labs
          \<longleftrightarrow> list_all2 (parses unmarshalLab) it labs)) \<and>
   (GetQueryResultWithPagination c s queryString (ucast pageSize) bookmark = Inr (it, md) \<longrightarrow>
      (\<forall>r. QueryAssetsWithPagination c s queryString pageSize bookmark = Inr r \<longleftrightarrow>
         list_all2 (parses unmarshalLab) it (PQR_Labs r) \<and>
         PQR_FetchedRecordsCount r = FetchedRecordsCount md \<and> PQR_Bookmark r = Bookmark md))"
proof (rule conjI; rule impI)
  assume a: "GetStateByRangeWithPagination c s startKey endKey (ucast pageSize) bookmark = Inr (it, md)"
  show "GetAssetsByRangeWithPagination c s startKey endKey pageSize bookmark
        = constructQueryResponseFromIterator it \<and>
      (\<forall>labs. GetAssetsByRangeWithPagination c s startKey endKey pageSize bookmark = Inr labs
          \<longleftrightarrow> list_all2 (parses unmarshalLab) it labs)"
    by (simp add: paged_range [OF a] constructQueryResponseFromIterator_def loops_decodeAll
        decodeAll_Inr)
next
  assume a: "GetQueryResultWithPagination c s queryString (ucast pageSize) bookmark = Inr (it, md)"
  show "\<forall>r. QueryAssetsWithPagination c s queryString pageSize bookmark = Inr r \<longleftrightarrow>
         list_all2 (parses unmarshalLab) it (PQR_Labs r) \<and>
         PQR_FetchedRecordsCount r = FetchedRecordsCount md \<and> PQR_Bookmark r = Bookmark md"
  proof
    fix r
    show "QueryAssetsWithPagination c s queryString pageSize bookmark = Inr r \<longleftrightarrow>
         list_all2 (parses unmarshalLab) it (PQR_Labs r) \<and>
         PQR_FetchedRecordsCount r = FetchedRecordsCount md \<and> PQR_Bookmark r = Bookmark md"
    proof -
      have "QueryAssetsWithPagination c s queryString pageSize bookmark = Inr r \<longleftrightarrow>
         decodeAll unmarshalLab it [] = Inr (PQR_Labs r) \<and>
         PQR_FetchedRecordsCount r = FetchedRecordsCount md \<and> PQR_Bookmark r = Bookmark md"
        by (cases r; cases "decodeAll unmarshalLab it []") (auto simp: paged_query [OF a])
      then show ?thesis by (simp add: decodeAll_Inr)
    qed
  qed
qed

text \<open>The theorem at a page size of 1, against a store that answers with \<open>lab1\<close>.\<close>

theorem paginated_range_scan_drops_metadata_witness:
  "GetStateByRangeWithPagination ctxPaged ledgerLab1 [] [] (ucast (1 :: 64 word)) []
     = Inr ([Inr (''lab1'', marshalLab lab1)], \<lparr>FetchedRecordsCount = 1, Bookmark = ''g1AAAA''\<rparr>) \<and>
   GetAssetsByRangeWithPagination ctxPaged ledgerLab1 [] [] 1 []
     = constructQueryResponseFromIterator [Inr (''lab1'', marshalLab lab1)] \<and>
   GetQueryResultWithPagination ctxPaged ledgerLab1 ''{}'' (ucast (1 :: 64 word)) []
     = Inr ([Inr (''lab1'', marshalLab lab1)], \<lparr>FetchedRecordsCount = 1, Bookmark = ''g1AAAA''\<rparr>) \<and>
   (\<forall>r. QueryAssetsWithPagination ctxPaged ledgerLab1 ''{}'' 1 [] = Inr r \<longleftrightarrow>
      list_all2 (parses unmarshalLab) [Inr (''lab1'', marshalLab lab1)] (PQR_Labs r) \<and>
      PQR_FetchedRecordsCount r = 1 \<and> PQR_Bookmark r = ''g1AAAA'')"
proof -
  note t = paginated_range_scan_drops_metadata [where c = ctxPaged and s = ledgerLab1
      and pageSize = 1 and bookmark = "[]" and it = "[Inr (''lab1'', marshalLab lab1)]"
      and md = "\<lparr>FetchedRecordsCount = 1, Bookmark = ''g1AAAA''\<rparr>"]
  have 1: "GetAssetsByRangeWithPagination ctxPaged ledgerLab1 [] [] 1 []
     = constructQueryResponseFromIterator [Inr (''lab1'', marshalLab lab1)]"
    using t [where startKey = "[]" and endKey = "[]"] ctxPaged_calls(2) by simp
  have 2: "\<forall>r. QueryAssetsWithPagination ctxPaged ledgerLab1 ''{}'' 1 [] = Inr r \<longleftrightarrow>
      list_all2 (parses unmarshalLab) [Inr (''lab1'', marshalLab lab1)] (PQR_Labs r) \<and>
      PQR_FetchedRecordsCount r = 1 \<and> PQR_Bookmark r = ''g1AAAA''"
    using t [where queryString = "''{}''"] ctxPaged_calls(1) by simp
  from 1 2 ctxPaged_calls show ?thesis by simp
qed

text \<open>
  C8 as stated fails: two stores answer the same paginated range scan with the same
  entry and with different fetched counts and bookmarks; the operation returns the same
  value for both, so its result carries neither.
\<close>

theorem paginated_range_scan_counterexample:
  "GetStateByRangeWithPagination ctxPaged ledgerLab1 [] [] (ucast (1 :: 64 word)) []
     = Inr ([Inr (''lab1'', marshalLab lab1)], \<lparr>FetchedRecordsCount = 1, Bookmark = ''g1AAAA''\<rparr>) \<and>
   GetStateByRangeWithPagination ctxPaged' ledgerLab1 [] [] (ucast (1 :: 64 word)) []
     = Inr ([Inr (''lab1'', marshalLab lab1)], \<lparr>FetchedRecordsCount = 7, Bookmark = ''g2BBBB''\<rparr>) \<and>
   GetAssetsByRangeWithPagination ctxPaged ledgerLab1 [] [] 1 [] = Inr [lab1] \<and>
   GetAssetsByRangeWithPagination ctxPaged' ledgerLab1 [] [] 1 [] = Inr [lab1]"
proof -
  have d: "decodeAll unmarshalLab [Inr (''lab1'', marshalLab lab1)] [] = Inr [lab1]"
    by (simp add: unmarshalLab_marshalLab)
  then show ?thesis
    by (simp add: paged_range [OF ctxPaged_calls(2)] paged_range [OF ctxPaged_calls(3)]
        ctxPaged_calls)
qed

section \<open>The owner of a class (C10)\<close>



section \<open>Delete (C5)\<close>

text \<open>
  C5. In a consistent world state, when the record under an id reads successfully, the
  caller is its owner (\<open>DeleteSubmission\<close> asks for no caller) and the store's deletes do
  not fail, Delete reports success, and in the world state it leaves the id does not
  exist and no entry of any index declared for the kind resolves to the id.
\<close>

theorem Delete_removes_record_and_index_entries:
  "(ReadClass ctx s ident = Inr cls \<and> GetSubmittingClientIdentity ctx = Inr (Class_Owner cls) \<and>
      (\<forall>k. \<not> delFails ctx k) \<longrightarrow>
        (\<exists>s'. DeleteClass ctx s ident = (None, s') \<and> ClassExists ctx s' ident = Inr False)) \<and>
   (consistent doc_Lab s \<and> ReadLab ctx s ident = Inr lab \<and> (\<forall>k. \<not> delFails ctx k) \<longrightarrow>
        (\<exists>s'. DeleteLab ctx s ident (Lab_Owner lab) = (None, s') \<and>
           LabExists ctx s' ident = Inr False \<and> indexEntries s' index ident = {})) \<and>
   (consistent doc_Instance s \<and> ReadInstance ctx s ident = Inr inst \<and>
      (\<forall>k. \<not> delFails ctx k) \<longrightarrow>
        (\<exists>s'. DeleteInstance ctx s ident (Instance_Owner inst) = (None, s') \<and>
           InstanceExists ctx s' ident = Inr False \<and> indexEntries s' index1 ident = {} \<and>
           indexEntries s' index2 ident = {} \<and> indexEntries s' index3 ident = {})) \<and>
   (consistent doc_Submission s \<and> ReadSubmission ctx s ident = Inr sub \<and>
      (\<forall>k. \<not> delFails ctx k) \<longrightarrow>
        (\<exists>s'. DeleteSubmission ctx s ident = (None, s') \<and>
           SubmissionExists ctx s' ident = Inr False \<and> indexEntries s' index1 ident = {} \<and>
           indexEntries s' index2 ident = {} \<and> indexEntries s' index3 ident = {}))"
proof (intro conjI impI)
  assume "ReadClass ctx s ident = Inr cls \<and>
    GetSubmittingClientIdentity ctx = Inr (Class_Owner cls) \<and> (\<forall>k. \<not> delFails ctx k)"
  then show "\<exists>s'. DeleteClass ctx s ident = (None, s') \<and> ClassExists ctx s' ident = Inr False"
    using DeleteClass_owner [of ctx s ident cls] by blast
next
  assume "consistent doc_Lab s \<and> ReadLab ctx s ident = Inr lab \<and> (\<forall>k. \<not> delFails ctx k)"
  then show "\<exists>s'. DeleteLab ctx s ident (Lab_Owner lab) = (None, s') \<and>
           LabExists ctx s' ident = Inr False \<and> indexEntries s' index ident = {}"
    using DeleteLab_consistent [of s ctx ident lab "Lab_Owner lab"] by blast
next
  assume "consistent doc_Instance s \<and> ReadInstance ctx s ident = Inr inst \<and>
      (\<forall>k. \<not> delFails ctx k)"
  then show "\<exists>s'. DeleteInstance ctx s ident (Instance_Owner inst) = (None, s') \<and>
           InstanceExists ctx s' ident = Inr False \<and> indexEntries s' index1 ident = {} \<and>
           indexEntries s' index2 ident = {} \<and> indexEntries s' index3 ident = {}"
    using DeleteInstance_consistent [of s ctx ident inst "Instance_Owner inst"] by blast
next
  assume "consistent doc_Submission s \<and> ReadSubmission ctx s ident = Inr sub \<and>
      (\<forall>k. \<not> delFails ctx k)"
  then show "\<exists>s'. DeleteSubmission ctx s ident = (None, s') \<and>
           SubmissionExists ctx s' ident = Inr False \<and> indexEntries s' index1 ident = {} \<and>
           indexEntries s' index2 ident = {} \<and> indexEntries s' index3 ident = {}"
    using DeleteSubmission_consistent [of s ctx ident sub] by blast
qed

text \<open>The theorem at Tom's deletes of the four records he owns.\<close>

theorem Delete_removes_record_and_index_entries_witness:
  "ReadClass ctxTom ledgerClass1 ''class1'' = Inr class1 \<and>
   GetSubmittingClientIdentity ctxTom = Inr (Class_Owner class1) \<and>
   (\<forall>k. \<not> delFails ctxTom k) \<and>
   (\<exists>s'. DeleteClass ctxTom ledgerClass1 ''class1'' = (None, s') \<and>
      ClassExists ctxTom s' ''class1'' = Inr False) \<and>
   consistent doc_Lab ledgerLab1 \<and> ReadLab ctxTom ledgerLab1 ''lab1'' = Inr lab1 \<and>
   (\<exists>s'. DeleteLab ctxTom ledgerLab1 ''lab1'' (Lab_Owner lab1) = (None, s') \<and>
      LabExists ctxTom s' ''lab1'' = Inr False \<and> indexEntries s' index ''lab1'' = {}) \<and>
   consistent doc_Instance ledgerInstance1 \<and>
   ReadInstance ctxTom ledgerInstance1 ''instance1'' = Inr instance1 \<and>
   (\<exists>s'. DeleteInstance ctxTom ledgerInstance1 ''instance1'' (Instance_Owner instance1) = (None, s') \<and>
      InstanceExists ctxTom s' ''instance1'' = Inr False \<and>
      indexEntries s' index1 ''instance1'' = {} \<and> indexEntries s' index2 ''instance1'' = {} \<and>
      indexEntries s' index3 ''instance1'' = {}) \<and>
   consistent doc_Submission ledgerSubmission1 \<and>
   ReadSubmission ctxTom ledgerSubmission1 ''submission1'' = Inr submission1 \<and>
   (\<exists>s'. DeleteSubmission ctxTom ledgerSubmission1 ''submission1'' = (None, s') \<and>
      SubmissionExists ctxTom s' ''submission1'' = Inr False \<and>
      indexEntries s' index1 ''submission1'' = {} \<and> indexEntries s' index2 ''submission1'' = {} \<and>
      indexEntries s' index3 ''submission1'' = {})"
proof -
  have nd: "\<forall>k. \<not> delFails ctxTom k"
    by (simp add: ctx_defs)
  have idn: "GetSubmittingClientIdentity ctxTom = Inr (Class_Owner class1)"
    by (simp add: GetSubmittingClientIdentity_def DecodeString_def ctx_defs class1_def)
  note t = Delete_removes_record_and_index_entries [where ctx = ctxTom]
  have 1: "\<exists>s'. DeleteClass ctxTom ledgerClass1 ''class1'' = (None, s') \<and>
      ClassExists ctxTom s' ''class1'' = Inr False"
    using t [where s = ledgerClass1 and ident = "''class1''" and cls = class1]
      read_concrete_Tom(1) idn nd by simp
  have 2: "\<exists>s'. DeleteLab ctxTom ledgerLab1 ''lab1'' (Lab_Owner lab1) = (None, s') \<and>
      LabExists ctxTom s' ''lab1'' = Inr False \<and> indexEntries s' index ''lab1'' = {}"
    using t [where s = ledgerLab1 and ident = "''lab1''" and lab = lab1]
      read_concrete_Tom(2) consistent_concrete(1) nd by simp
  have 3: "\<exists>s'. DeleteInstance ctxTom ledgerInstance1 ''instance1'' (Instance_Owner instance1) = (None, s') \<and>
      InstanceExists ctxTom s' ''instance1'' = Inr False \<and>
      indexEntries s' index1 ''instance1'' = {} \<and> indexEntries s' index2 ''instance1'' = {} \<and>
      indexEntries s' index3 ''instance1'' = {}"
    using t [where s = ledgerInstance1 and ident = "''instance1''" and inst = instance1]
      read_concrete_Tom(3) consistent_concrete(2) nd by simp
  have 4: "\<exists>s'. DeleteSubmission ctxTom ledgerSubmission1 ''submission1'' = (None, s') \<and>
      SubmissionExists ctxTom s' ''submission1'' = Inr False \<and>
      indexEntries s' index1 ''submission1'' = {} \<and> indexEntries s' index2 ''submission1'' = {} \<and>
      indexEntries s' index3 ''submission1'' = {}"
    using t [where s = ledgerSubmission1 and ident = "''submission1''" and sub = submission1]
      read_concrete_Tom(4) consistent_concrete(3) nd by simp
  from 1 2 3 4 nd idn read_concrete_Tom consistent_concrete show ?thesis
    by (intro conjI) assumption+
qed

section \<open>Create (C9)\<close>




end
